theory Spec2Isabelle
  imports Main
begin

section \<open>Data model\<close>

text \<open>
  The corporate server keeps its data in MongoDB collections that it shares with the main
  server.  The model keeps the collections the order and quote routes touch as one explicit
  state.  Documents are records; an absent (undefined or null) field is an option.
  JavaScript numbers that hold quantities, prices (in the smallest currency unit) and
  counters are modelled as unbounded integers, timestamps as natural numbers of
  milliseconds.  Status fields are the strings the source compares and assigns.
\<close>

type_synonym product_id = nat
type_synonym order_id = nat
type_synonym quote_id = nat

record product =
  p_sellerId :: string
  p_title :: string
  p_price :: int
  p_images :: "string list"
  p_sku :: string
  p_isActive :: bool
  p_stock :: int
  p_orderCount :: int

record catalog_entry =
  ce_productId :: product_id
  ce_isActive :: bool
  corporatePrice :: "int option"
  minOrderQty :: int
  maxOrderQty :: int

record address =
  a_phone :: "string option"
  a_isDefault :: bool
  a_lines :: string

record corporate_user =
  u_id :: nat
  u_email :: string
  u_phone :: "string option"
  companyName :: string
  shippingAddresses :: "address list"

record order_item =
  oi_productId :: product_id
  oi_title :: string
  oi_price :: int
  oi_image :: string
  oi_sku :: string
  oi_quantity :: int
  oi_sellerId :: "string option"

record order =
  orderNumber :: string
  orderType :: string
  customerEmail :: string
  customerPhone :: "string option"
  o_sellerId :: "string option"
  o_items :: "order_item list"
  shippingAddress :: address
  itemTotal :: int
  shippingCost :: int
  totalAmount :: int
  commissionRate :: int
  commissionAmount :: int
  paymentGatewayFee :: int
  sellerAmount :: int
  o_notes :: string
  status :: string
  paymentStatus :: string
  cashfreeOrderId :: "string option"
  paymentSessionId :: "string option"
  cashfreePaymentId :: "string option"
  paidAt :: "nat option"
  cancelledAt :: "nat option"
  cancelReason :: "string option"
  refundId :: "string option"

record quote_item =
  qi_productId :: product_id
  qi_title :: string
  qi_unitPrice :: int
  qi_image :: string
  qi_quantity :: int

record quote =
  quoteNumber :: string
  q_companyName :: string
  corporateUserId :: "nat option"
  contactEmail :: string
  q_status :: string
  validUntil :: "nat option"
  q_items :: "quote_item list"
  q_totalAmount :: int
  finalAmount :: int
  convertedOrderId :: "order_id option"
  clientNotes :: string

subsection \<open>The payment gateway\<close>

text \<open>
  The Cashfree adapter (\<open>server/config/cashfree\<close>) is a remote service.  A call either
  returns or throws; a throwing call is \<open>None\<close> (\<open>False\<close> for \<open>createRefund\<close>, whose
  result the source ignores).  The requests sent to it are logged in the state, so that
  what was requested can be stated.
\<close>

record cf_request =
  cr_orderId :: string
  cr_orderAmount :: int
  cr_customerId :: nat
  cr_email :: string
  cr_phone :: string
  cr_name :: string

record refund_request =
  rr_orderId :: "string option"
  rr_refundAmount :: int
  rr_refundId :: string

record cf_payment =
  payment_status :: string
  cf_payment_id :: "nat option"

record gateway =
  createCashfreeOrder :: "cf_request \<Rightarrow> string option"
  getCashfreeOrder :: "string \<Rightarrow> string option"
  getCashfreePayments :: "string \<Rightarrow> cf_payment list option"
  createRefund :: "refund_request \<Rightarrow> bool"

subsection \<open>The state\<close>

text \<open>
  An order's \<open>_id\<close> is its position in \<open>db_orders\<close>: ids are unique by construction and
  no route of this server deletes an order.  Products and quotes are keyed by their
  \<open>_id\<close>.  \<open>cf_sessions\<close> and \<open>cf_refunds\<close> are the gateway's side of the calls made.
\<close>

record state =
  db_orders :: "order list"
  db_products :: "product_id \<rightharpoonup> product"
  db_catalog :: "catalog_entry list"
  db_quotes :: "quote_id \<rightharpoonup> quote"
  cf_sessions :: "cf_request list"
  cf_refunds :: "refund_request list"

subsection \<open>Responses\<close>

text \<open>
  Every \<open>return res.status(...).json({ message })\<close> of the routes is one constructor;
  \<open>http_status\<close> gives the status code the source sends with it.
\<close>

datatype error =
    NoItems
  | ShippingAddressRequired
  | NotInCatalog product_id
  | MinimumOrderQuantity int
  | MaximumOrderQuantity int
  | ProductUnavailable product_id
  | FailedToCreateOrder
  | OrderIdRequired
  | PaymentNotCompleted string
  | NoMatchingOrders
  | VerificationFailed
  | OrderNotFound
  | CannotCancel string
  | QuoteNotFound
  | QuoteExpired
  | FailedToProcessQuote

fun http_status :: "error \<Rightarrow> nat" where
  "http_status NoItems = 400"
| "http_status ShippingAddressRequired = 400"
| "http_status (NotInCatalog _) = 400"
| "http_status (MinimumOrderQuantity _) = 400"
| "http_status (MaximumOrderQuantity _) = 400"
| "http_status (ProductUnavailable _) = 400"
| "http_status FailedToCreateOrder = 500"
| "http_status OrderIdRequired = 400"
| "http_status (PaymentNotCompleted _) = 400"
| "http_status NoMatchingOrders = 404"
| "http_status VerificationFailed = 500"
| "http_status OrderNotFound = 404"
| "http_status (CannotCancel _) = 400"
| "http_status QuoteNotFound = 404"
| "http_status QuoteExpired = 400"
| "http_status FailedToProcessQuote = 500"

record cashfree_order_info =
  ci_orderId :: string
  ci_paymentSessionId :: string
  ci_orderAmount :: int

record create_response =
  r_orders :: "(order_id \<times> order) list"
  r_cashfreeOrder :: cashfree_order_info

section \<open>Helpers of the source\<close>

text \<open>JavaScript's \<open>a || b\<close> on an optional string: the empty string is falsy.\<close>

fun or_string :: "string option \<Rightarrow> string option \<Rightarrow> string option" where
  "or_string (Some s) b = (if s = [] then b else Some s)"
| "or_string None b = b"

text \<open>Decimal rendering of a number, as \<open>toString\<close> and template strings do.\<close>

definition digit_char :: "nat \<Rightarrow> char" where
  "digit_char n = ''0123456789'' ! (n mod 10)"

fun decimal :: "nat \<Rightarrow> string" where
  "decimal n = (if n < 10 then [digit_char n] else decimal (n div 10) @ [digit_char n])"

declare decimal.simps [simp del]

text \<open>\<open>normalizePhone\<close>: keep the digits, take the last ten, or fall back.\<close>

definition is_digit :: "char \<Rightarrow> bool" where
  "is_digit c = (c \<in> set ''0123456789'')"

definition normalizePhone :: "string option \<Rightarrow> string" where
  "normalizePhone phone =
     (let digits = filter is_digit (case or_string phone (Some []) of Some s \<Rightarrow> s | None \<Rightarrow> [])
      in if length digits \<ge> 10 then drop (length digits - 10) digits else ''9999999999'')"

section \<open>Stock adjustments\<close>

text \<open>
  \<open>Product.findOneAndUpdate({ _id, stock: { $gte: q } }, { $inc: { stock: -q, orderCount: q } })\<close>:
  one atomic update that applies only to a product that exists and has enough stock.
\<close>

definition decrementIfAtLeast :: "product_id \<Rightarrow> int \<Rightarrow> (product_id \<rightharpoonup> product) \<Rightarrow> (product_id \<rightharpoonup> product)" where
  "decrementIfAtLeast pid q ps =
     (case ps pid of
        None \<Rightarrow> ps
      | Some p \<Rightarrow>
          if p_stock p \<ge> q
          then ps(pid \<mapsto> p\<lparr>p_stock := p_stock p - q, p_orderCount := p_orderCount p + q\<rparr>)
          else ps)"

text \<open>
  \<open>Product.findByIdAndUpdate(id, { $inc: { stock: q, orderCount: -q } })\<close>: unconditional
  on a product that exists.
\<close>

definition restoreStock :: "product_id \<Rightarrow> int \<Rightarrow> (product_id \<rightharpoonup> product) \<Rightarrow> (product_id \<rightharpoonup> product)" where
  "restoreStock pid q ps =
     (case ps pid of
        None \<Rightarrow> ps
      | Some p \<Rightarrow> ps(pid \<mapsto> p\<lparr>p_stock := p_stock p + q, p_orderCount := p_orderCount p - q\<rparr>))"

text \<open>The loops over \<open>order.items\<close> in verify-payment and in cancel.\<close>

fun decrement_items :: "order_item list \<Rightarrow> (product_id \<rightharpoonup> product) \<Rightarrow> (product_id \<rightharpoonup> product)" where
  "decrement_items [] ps = ps"
| "decrement_items (item # rest) ps =
     decrement_items rest (decrementIfAtLeast (oi_productId item) (oi_quantity item) ps)"

fun restore_items :: "order_item list \<Rightarrow> (product_id \<rightharpoonup> product) \<Rightarrow> (product_id \<rightharpoonup> product)" where
  "restore_items [] ps = ps"
| "restore_items (item # rest) ps =
     restore_items rest (restoreStock (oi_productId item) (oi_quantity item) ps)"

section \<open>POST /api/corporate/orders/verify-payment\<close>

text \<open>\<open>Order.find({ cashfreeOrderId, customerEmail })\<close>: the matching documents with their ids.\<close>

definition find_orders :: "string \<Rightarrow> string \<Rightarrow> order list \<Rightarrow> (order_id \<times> order) list" where
  "find_orders cf email os =
     filter (\<lambda>(i, ord). cashfreeOrderId ord = Some cf \<and> customerEmail ord = email) (List.enumerate 0 os)"

text \<open>\<open>order.save()\<close> of a document that was loaded from the collection.\<close>

definition save_order :: "order_id \<Rightarrow> order \<Rightarrow> state \<Rightarrow> state" where
  "save_order i ord st = st\<lparr>db_orders := (db_orders st)[i := ord]\<rparr>"

text \<open>
  The loop over the orders found: an order already paid is skipped; any other is marked
  paid and confirmed, saved, and its items' stock is decremented.  The loop returns the
  documents as the response shows them.  The source reads \<open>new Date()\<close> for each order;
  the model reads the clock once per request.
\<close>

definition mark_paid :: "string \<Rightarrow> nat \<Rightarrow> order \<Rightarrow> order" where
  "mark_paid pay now ord =
     ord\<lparr>paymentStatus := ''paid'', status := ''confirmed'',
         cashfreePaymentId := Some pay, paidAt := Some now\<rparr>"

fun confirm_orders :: "string \<Rightarrow> nat \<Rightarrow> (order_id \<times> order) list \<Rightarrow> state \<Rightarrow> (order_id \<times> order) list \<times> state" where
  "confirm_orders pay now [] st = ([], st)"
| "confirm_orders pay now ((i, ord) # rest) st =
     (if paymentStatus ord = ''paid''
      then (case confirm_orders pay now rest st of (os, st') \<Rightarrow> ((i, ord) # os, st'))
      else
        let ord' = mark_paid pay now ord;
            st1 = save_order i ord' st;
            st2 = st1\<lparr>db_products := decrement_items (o_items ord') (db_products st1)\<rparr>
        in (case confirm_orders pay now rest st2 of (os, st') \<Rightarrow> ((i, ord') # os, st')))"

text \<open>\<open>successPayment?.cf_payment_id?.toString() || ''\<close>\<close>

definition payment_reference :: "cf_payment list \<Rightarrow> string" where
  "payment_reference payments =
     (case find (\<lambda>p. payment_status p = ''SUCCESS'') payments of
        None \<Rightarrow> []
      | Some p \<Rightarrow> (case cf_payment_id p of None \<Rightarrow> [] | Some n \<Rightarrow> decimal n))"

definition verify_payment ::
  "gateway \<Rightarrow> nat \<Rightarrow> corporate_user \<Rightarrow> string option \<Rightarrow> state \<Rightarrow> (error + (order_id \<times> order) list) \<times> state" where
  "verify_payment gw now corpUser orderId st =
     (case or_string orderId None of
        None \<Rightarrow> (Inl OrderIdRequired, st)
      | Some cf \<Rightarrow>
          (case getCashfreeOrder gw cf of
             None \<Rightarrow> (Inl VerificationFailed, st)
           | Some order_status \<Rightarrow>
               if order_status \<noteq> ''PAID'' then (Inl (PaymentNotCompleted order_status), st)
               else
                 (case getCashfreePayments gw cf of
                    None \<Rightarrow> (Inl VerificationFailed, st)
                  | Some payments \<Rightarrow>
                      let orders = find_orders cf (u_email corpUser) (db_orders st)
                      in if orders = [] then (Inl NoMatchingOrders, st)
                         else (case confirm_orders (payment_reference payments) now orders st of
                                 (os, st') \<Rightarrow> (Inr os, st')))))"

section \<open>POST /api/corporate/orders/:id/cancel\<close>

text \<open>\<open>Order.findOne({ _id, customerEmail })\<close>\<close>

definition find_order :: "order_id \<Rightarrow> string \<Rightarrow> order list \<Rightarrow> order option" where
  "find_order i email os =
     (if i < length os \<and> customerEmail (os ! i) = email then Some (os ! i) else None)"

text \<open>
  The refund asked of the gateway: the full order total, under the fresh identifier
  \<open>`refund_${order.orderNumber}_${Date.now()}`\<close>.
\<close>

definition refund_request_for :: "nat \<Rightarrow> order \<Rightarrow> refund_request" where
  "refund_request_for now ord =
     \<lparr>rr_orderId = cashfreeOrderId ord, rr_refundAmount = totalAmount ord,
      rr_refundId = ''refund_'' @ orderNumber ord @ ''_'' @ decimal now\<rparr>"

text \<open>
  The notification e-mail and the audit log that follow the state changes are external
  collaborators whose failures the source swallows; they do not appear in the model.
\<close>

definition cancel_order ::
  "gateway \<Rightarrow> nat \<Rightarrow> corporate_user \<Rightarrow> order_id \<Rightarrow> string option \<Rightarrow> state \<Rightarrow> (error + order) \<times> state" where
  "cancel_order gw now corpUser i reason st =
     (case find_order i (u_email corpUser) (db_orders st) of
        None \<Rightarrow> (Inl OrderNotFound, st)
      | Some ord \<Rightarrow>
          if status ord \<noteq> ''pending'' \<and> status ord \<noteq> ''confirmed''
          then (Inl (CannotCancel (status ord)), st)
          else
            let ord1 = ord\<lparr>status := ''cancelled'', cancelledAt := Some now,
                         cancelReason := or_string reason (Some ''Cancelled by corporate client'')\<rparr>;
                st1 = save_order i ord1 st
            in if paymentStatus ord1 = ''paid''
               then
                 let st2 = st1\<lparr>db_products := restore_items (o_items ord1) (db_products st1)\<rparr>;
                     req = refund_request_for now ord1;
                     st3 = st2\<lparr>cf_refunds := cf_refunds st2 @ [req]\<rparr>;
                     ord2 = (if createRefund gw req
                             then ord1\<lparr>paymentStatus := ''refunded'',
                                      refundId := Some (rr_refundId req)\<rparr>
                             else ord1\<lparr>paymentStatus := ''refund_pending''\<rparr>)
                 in (Inr ord2, save_order i ord2 st3)
               else (Inr ord1, st1))"

section \<open>POST /api/corporate/orders\<close>

record cart_item =
  ci_productId :: product_id
  ci_quantity :: int

record group_item =
  g_productId :: product_id
  g_product :: product
  g_quantity :: int
  g_unitPrice :: int
  g_catalogEntry :: catalog_entry

text \<open>\<open>CorporateCatalog.findOne({ productId, isActive: true })\<close>\<close>

definition find_catalog_entry :: "catalog_entry list \<Rightarrow> product_id \<Rightarrow> catalog_entry option" where
  "find_catalog_entry catalog pid = find (\<lambda>e. ce_productId e = pid \<and> ce_isActive e) catalog"

text \<open>
  \<open>catalogEntry.corporatePrice || product.price\<close>: a corporate price that is absent or
  zero is falsy, and the product's price is used.
\<close>

definition unit_price :: "catalog_entry \<Rightarrow> product \<Rightarrow> int" where
  "unit_price catalogEntry product =
     (case corporatePrice catalogEntry of
        None \<Rightarrow> p_price product
      | Some c \<Rightarrow> if c \<noteq> 0 then c else p_price product)"

text \<open>
  \<open>sellerGroups\<close> is an object keyed by the seller's id (the 24 hexadecimal digits of an
  ObjectId, so never an integer-like key): its entries are enumerated in insertion order.
\<close>

fun push_group :: "string \<Rightarrow> group_item \<Rightarrow> (string \<times> group_item list) list \<Rightarrow> (string \<times> group_item list) list" where
  "push_group sid gi [] = [(sid, [gi])]"
| "push_group sid gi ((k, v) # gs) =
     (if k = sid then (k, v @ [gi]) # gs else (k, v) # push_group sid gi gs)"

text \<open>
  The body of the validation loop for one item: the catalog entry, the quantity bounds, the
  product, and the unit price.
\<close>

definition check_item :: "catalog_entry list \<Rightarrow> (product_id \<rightharpoonup> product) \<Rightarrow> cart_item \<Rightarrow> error + group_item" where
  "check_item catalog ps item =
     (case find_catalog_entry catalog (ci_productId item) of
        None \<Rightarrow> Inl (NotInCatalog (ci_productId item))
      | Some catalogEntry \<Rightarrow>
          if ci_quantity item < minOrderQty catalogEntry
          then Inl (MinimumOrderQuantity (minOrderQty catalogEntry))
          else if ci_quantity item > maxOrderQty catalogEntry
          then Inl (MaximumOrderQuantity (maxOrderQty catalogEntry))
          else
            (case ps (ci_productId item) of
               None \<Rightarrow> Inl (ProductUnavailable (ci_productId item))
             | Some product \<Rightarrow>
                 if \<not> p_isActive product then Inl (ProductUnavailable (ci_productId item))
                 else Inr \<lparr>g_productId = ci_productId item, g_product = product,
                          g_quantity = ci_quantity item,
                          g_unitPrice = unit_price catalogEntry product,
                          g_catalogEntry = catalogEntry\<rparr>))"

text \<open>The validation loop: the first item that fails a check ends the request.\<close>

fun group_items ::
  "catalog_entry list \<Rightarrow> (product_id \<rightharpoonup> product) \<Rightarrow> cart_item list \<Rightarrow> (string \<times> group_item list) list
     \<Rightarrow> error + (string \<times> group_item list) list" where
  "group_items catalog ps [] sellerGroups = Inr sellerGroups"
| "group_items catalog ps (item # rest) sellerGroups =
     (case check_item catalog ps item of
        Inl e \<Rightarrow> Inl e
      | Inr gi \<Rightarrow>
          group_items catalog ps rest (push_group (p_sellerId (g_product gi)) gi sellerGroups))"

text \<open>
  Modelled from the spec: the default of the Order schema's \<open>status\<close> field
  (\<open>server/models/Order\<close> is not part of this repository's files).  The routes set no
  status when they build an order; the spec's data model has a new order in lifecycle status
  \<open>pending\<close>.
\<close>

definition default_status :: string where
  "default_status = ''pending''"

text \<open>
  Modelled from the spec: the default of the Order schema's \<open>paymentStatus\<close> field, for
  the same reason; the spec's data model has a new order in payment status \<open>unpaid\<close>.
\<close>

definition default_paymentStatus :: string where
  "default_paymentStatus = ''unpaid''"

definition order_item_of :: "string \<Rightarrow> group_item \<Rightarrow> order_item" where
  "order_item_of sellerId i =
     \<lparr>oi_productId = g_productId i, oi_title = p_title (g_product i), oi_price = g_unitPrice i,
      oi_image = (case p_images (g_product i) of [] \<Rightarrow> [] | url # _ \<Rightarrow> url),
      oi_sku = p_sku (g_product i), oi_quantity = g_quantity i, oi_sellerId = Some sellerId\<rparr>"

definition new_order :: "corporate_user \<Rightarrow> address \<Rightarrow> string \<Rightarrow> string \<Rightarrow> group_item list \<Rightarrow> order" where
  "new_order corpUser addr number sellerId sellerItems =
     (let total = foldl (\<lambda>s i. s + g_unitPrice i * g_quantity i) 0 sellerItems
      in \<lparr>orderNumber = number, orderType = ''b2b_direct'', customerEmail = u_email corpUser,
          customerPhone = or_string (u_phone corpUser) (a_phone addr),
          o_sellerId = Some sellerId,
          o_items = map (order_item_of sellerId) sellerItems,
          shippingAddress = addr, itemTotal = total, shippingCost = 0, totalAmount = total,
          commissionRate = 0, commissionAmount = 0, paymentGatewayFee = 0, sellerAmount = total,
          o_notes = ''Corporate order by '' @ companyName corpUser @ '' ('' @ u_email corpUser @ '')'',
          status = default_status, paymentStatus = default_paymentStatus,
          cashfreeOrderId = None, paymentSessionId = None, cashfreePaymentId = None,
          paidAt = None, cancelledAt = None, cancelReason = None, refundId = None\<rparr>)"

text \<open>
  The loop over \<open>Object.entries(sellerGroups)\<close>: one order per entry, saved as a new
  document.  \<open>generateOrderNumber\<close> reads the clock and \<open>Math.random\<close>; \<open>gen k\<close> is
  the number it returns at its \<open>k\<close>-th call of the request.
\<close>

fun save_new_orders ::
  "corporate_user \<Rightarrow> address \<Rightarrow> (nat \<Rightarrow> string) \<Rightarrow> nat \<Rightarrow> (string \<times> group_item list) list \<Rightarrow> state
     \<Rightarrow> (order_id \<times> order) list \<times> state" where
  "save_new_orders corpUser addr gen k [] st = ([], st)"
| "save_new_orders corpUser addr gen k ((sellerId, sellerItems) # rest) st =
     (let ord = new_order corpUser addr (gen k) sellerId sellerItems;
          i = length (db_orders st);
          st1 = st\<lparr>db_orders := db_orders st @ [ord]\<rparr>
      in (case save_new_orders corpUser addr gen (Suc k) rest st1 of
            (os, st') \<Rightarrow> ((i, ord) # os, st')))"

text \<open>The loop that writes the gateway order id and the payment session onto every order.\<close>

definition with_session :: "string \<Rightarrow> string \<Rightarrow> order \<Rightarrow> order" where
  "with_session cf sess ord = ord\<lparr>cashfreeOrderId := Some cf, paymentSessionId := Some sess\<rparr>"

fun backfill_session :: "string \<Rightarrow> string \<Rightarrow> (order_id \<times> order) list \<Rightarrow> state \<Rightarrow> (order_id \<times> order) list \<times> state" where
  "backfill_session cf sess [] st = ([], st)"
| "backfill_session cf sess ((i, ord) # rest) st =
     (case backfill_session cf sess rest (save_order i (with_session cf sess ord) st) of
        (os, st') \<Rightarrow> ((i, with_session cf sess ord) # os, st'))"

definition session_request :: "corporate_user \<Rightarrow> address \<Rightarrow> string \<Rightarrow> int \<Rightarrow> cf_request" where
  "session_request corpUser addr cfOrderId amount =
     \<lparr>cr_orderId = cfOrderId, cr_orderAmount = amount, cr_customerId = u_id corpUser,
      cr_email = u_email corpUser,
      cr_phone = normalizePhone (or_string (u_phone corpUser) (a_phone addr)),
      cr_name = companyName corpUser\<rparr>"

text \<open>
  The route.  Whatever throws inside the \<open>try\<close> block (the gateway call, or reading
  \<open>orders[0]\<close> of an empty array) is answered by the \<open>catch\<close> with status 500, and
  what was saved before stays saved.
\<close>

definition create_order ::
  "gateway \<Rightarrow> (nat \<Rightarrow> string) \<Rightarrow> corporate_user \<Rightarrow> cart_item list \<Rightarrow> address option \<Rightarrow> state
     \<Rightarrow> (error + create_response) \<times> state" where
  "create_order gw gen corpUser items shippingAddr st =
     (if items = [] then (Inl NoItems, st)
      else
        (case shippingAddr of
           None \<Rightarrow> (Inl ShippingAddressRequired, st)
         | Some addr \<Rightarrow>
             (case group_items (db_catalog st) (db_products st) items [] of
                Inl e \<Rightarrow> (Inl e, st)
              | Inr sellerGroups \<Rightarrow>
                  (case save_new_orders corpUser addr gen 0 sellerGroups st of
                     (orders, st1) \<Rightarrow>
                       (case orders of
                          [] \<Rightarrow> (Inl FailedToCreateOrder, st1)
                        | first # _ \<Rightarrow>
                            let grandTotal = foldl (\<lambda>s io. s + totalAmount (snd io)) 0 orders;
                                cfOrderId = orderNumber (snd first);
                                req = session_request corpUser addr cfOrderId grandTotal;
                                st2 = st1\<lparr>cf_sessions := cf_sessions st1 @ [req]\<rparr>
                            in (case createCashfreeOrder gw req of
                                  None \<Rightarrow> (Inl FailedToCreateOrder, st2)
                                | Some sess \<Rightarrow>
                                    (case backfill_session cfOrderId sess orders st2 of
                                       (orders', st3) \<Rightarrow>
                                         (Inr \<lparr>r_orders = orders',
                                               r_cashfreeOrder =
                                                 \<lparr>ci_orderId = cfOrderId,
                                                  ci_paymentSessionId = sess,
                                                  ci_orderAmount = grandTotal\<rparr>\<rparr>,
                                          st3))))))))"

section \<open>POST /api/corporate/quotes/:id/approve and /reject\<close>

text \<open>
  \<open>CorporateQuote.findOne({ _id, $or: [{ corporateUserId }, { contactEmail }], status: 'sent' })\<close>
\<close>

definition find_sent_quote :: "quote_id \<Rightarrow> corporate_user \<Rightarrow> (quote_id \<rightharpoonup> quote) \<Rightarrow> quote option" where
  "find_sent_quote qid corpUser quotes =
     (case quotes qid of
        None \<Rightarrow> None
      | Some q \<Rightarrow>
          if (corporateUserId q = Some (u_id corpUser) \<or> contactEmail q = u_email corpUser)
             \<and> q_status q = ''sent''
          then Some q else None)"

text \<open>\<open>shippingAddress || addresses?.find(a => a.isDefault) || addresses?.[0]\<close>\<close>

definition delivery_address :: "address option \<Rightarrow> corporate_user \<Rightarrow> address option" where
  "delivery_address shippingAddr corpUser =
     (case shippingAddr of
        Some a \<Rightarrow> Some a
      | None \<Rightarrow>
          (case find a_isDefault (shippingAddresses corpUser) of
             Some a \<Rightarrow> Some a
           | None \<Rightarrow> (case shippingAddresses corpUser of [] \<Rightarrow> None | a # _ \<Rightarrow> Some a)))"

definition quote_order_item :: "quote_item \<Rightarrow> order_item" where
  "quote_order_item i =
     \<lparr>oi_productId = qi_productId i, oi_title = qi_title i, oi_price = qi_unitPrice i,
      oi_image = qi_image i, oi_sku = [], oi_quantity = qi_quantity i, oi_sellerId = None\<rparr>"

definition quote_order :: "corporate_user \<Rightarrow> address \<Rightarrow> string \<Rightarrow> quote \<Rightarrow> order" where
  "quote_order corpUser addr number q =
     \<lparr>orderNumber = number, orderType = ''b2b_direct'', customerEmail = u_email corpUser,
      customerPhone = or_string (u_phone corpUser) (a_phone addr),
      o_sellerId = None,
      o_items = map quote_order_item (q_items q),
      shippingAddress = addr, itemTotal = q_totalAmount q, shippingCost = 0,
      totalAmount = finalAmount q,
      commissionRate = 0, commissionAmount = 0, paymentGatewayFee = 0,
      sellerAmount = finalAmount q,
      o_notes = ''Created from quote '' @ quoteNumber q @ '' for '' @ q_companyName q,
      status = default_status, paymentStatus = default_paymentStatus,
      cashfreeOrderId = None, paymentSessionId = None, cashfreePaymentId = None,
      paidAt = None, cancelledAt = None, cancelReason = None, refundId = None\<rparr>"

text \<open>\<open>quote.validUntil && new Date() > quote.validUntil\<close>\<close>

definition is_expired :: "nat \<Rightarrow> quote \<Rightarrow> bool" where
  "is_expired now q = (case validUntil q of None \<Rightarrow> False | Some deadline \<Rightarrow> now > deadline)"

definition approve_quote ::
  "gateway \<Rightarrow> string \<Rightarrow> nat \<Rightarrow> corporate_user \<Rightarrow> quote_id \<Rightarrow> address option \<Rightarrow> state
     \<Rightarrow> (error + create_response) \<times> state" where
  "approve_quote gw number now corpUser qid shippingAddr st =
     (case find_sent_quote qid corpUser (db_quotes st) of
        None \<Rightarrow> (Inl QuoteNotFound, st)
      | Some q \<Rightarrow>
          if is_expired now q
          then (Inl QuoteExpired, st\<lparr>db_quotes := (db_quotes st)(qid \<mapsto> q\<lparr>q_status := ''expired''\<rparr>)\<rparr>)
          else
            (case delivery_address shippingAddr corpUser of
               None \<Rightarrow> (Inl ShippingAddressRequired, st)
             | Some addr \<Rightarrow>
                 let ord = quote_order corpUser addr number q;
                     i = length (db_orders st);
                     st1 = st\<lparr>db_orders := db_orders st @ [ord]\<rparr>;
                     req = session_request corpUser addr number (finalAmount q);
                     st2 = st1\<lparr>cf_sessions := cf_sessions st1 @ [req]\<rparr>
                 in (case createCashfreeOrder gw req of
                       None \<Rightarrow> (Inl FailedToProcessQuote, st2)
                     | Some sess \<Rightarrow>
                         let ord' = with_session number sess ord;
                             st3 = save_order i ord' st2;
                             st4 = st3\<lparr>db_quotes := (db_quotes st3)
                                      (qid \<mapsto> q\<lparr>q_status := ''approved'', convertedOrderId := Some i\<rparr>)\<rparr>
                         in (Inr \<lparr>r_orders = [(i, ord')],
                                  r_cashfreeOrder =
                                    \<lparr>ci_orderId = number, ci_paymentSessionId = sess,
                                     ci_orderAmount = finalAmount q\<rparr>\<rparr>,
                             st4))))"

definition reject_quote :: "corporate_user \<Rightarrow> quote_id \<Rightarrow> string option \<Rightarrow> state \<Rightarrow> (error + quote) \<times> state" where
  "reject_quote corpUser qid reason st =
     (case find_sent_quote qid corpUser (db_quotes st) of
        None \<Rightarrow> (Inl QuoteNotFound, st)
      | Some q \<Rightarrow>
          let q' = q\<lparr>q_status := ''rejected'',
                     clientNotes := (case or_string reason (Some []) of Some s \<Rightarrow> s | None \<Rightarrow> [])\<rparr>
          in (Inr q', st\<lparr>db_quotes := (db_quotes st)(qid \<mapsto> q')\<rparr>))"

section \<open>The routes as one server\<close>

text \<open>
  A request to one of the five routes modelled above, with what the environment supplies for
  it (the gateway's behaviour, the clock, the generated order numbers, the authenticated
  user), and the server's answers to a sequence of requests.
\<close>

datatype request =
    CreateOrder gateway "nat \<Rightarrow> string" corporate_user "cart_item list" "address option"
  | VerifyPayment gateway nat corporate_user "string option"
  | CancelOrder gateway nat corporate_user order_id "string option"
  | ApproveQuote gateway string nat corporate_user quote_id "address option"
  | RejectQuote corporate_user quote_id "string option"

datatype reply =
    OrderCreated "error + create_response"
  | PaymentVerified "error + (order_id \<times> order) list"
  | OrderCancelled "error + order"
  | QuoteApproved "error + create_response"
  | QuoteRejected "error + quote"

fun handle :: "request \<Rightarrow> state \<Rightarrow> reply \<times> state" where
  "handle (CreateOrder gw gen u items addr) st =
     (case create_order gw gen u items addr st of (r, st') \<Rightarrow> (OrderCreated r, st'))"
| "handle (VerifyPayment gw now u orderId) st =
     (case verify_payment gw now u orderId st of (r, st') \<Rightarrow> (PaymentVerified r, st'))"
| "handle (CancelOrder gw now u i reason) st =
     (case cancel_order gw now u i reason st of (r, st') \<Rightarrow> (OrderCancelled r, st'))"
| "handle (ApproveQuote gw number now u qid addr) st =
     (case approve_quote gw number now u qid addr st of (r, st') \<Rightarrow> (QuoteApproved r, st'))"
| "handle (RejectQuote u qid reason) st =
     (case reject_quote u qid reason st of (r, st') \<Rightarrow> (QuoteRejected r, st'))"

fun serve :: "request list \<Rightarrow> state \<Rightarrow> reply list \<times> state" where
  "serve [] st = ([], st)"
| "serve (r # rs) st =
     (case handle r st of
        (a, st1) \<Rightarrow> (case serve rs st1 of (as, st') \<Rightarrow> (a # as, st')))"

section \<open>A worked scenario\<close>

text \<open>
  The scenario of the specification: a buyer orders 5 units of product P (corporate price
  100, between 2 and 10 units per order) from seller S1 and 3 units of product Q (no
  corporate price, base price 50) from seller S2.
\<close>

definition productP :: product where
  "productP = \<lparr>p_sellerId = ''S1'', p_title = ''P'', p_price = 120, p_images = [],
     p_sku = ''P-1'', p_isActive = True, p_stock = 20, p_orderCount = 0\<rparr>"

definition productQ :: product where
  "productQ = \<lparr>p_sellerId = ''S2'', p_title = ''Q'', p_price = 50, p_images = [],
     p_sku = ''Q-1'', p_isActive = True, p_stock = 10, p_orderCount = 0\<rparr>"

definition entryP :: catalog_entry where
  "entryP = \<lparr>ce_productId = 0, ce_isActive = True, corporatePrice = Some 100,
     minOrderQty = 2, maxOrderQty = 10\<rparr>"

definition entryQ :: catalog_entry where
  "entryQ = \<lparr>ce_productId = 1, ce_isActive = True, corporatePrice = None,
     minOrderQty = 1, maxOrderQty = 100\<rparr>"

definition buyer :: corporate_user where
  "buyer = \<lparr>u_id = 7, u_email = ''buyer@acme.example'', u_phone = None,
     companyName = ''Acme'', shippingAddresses = []\<rparr>"

definition depot :: address where
  "depot = \<lparr>a_phone = Some ''98765 43210'', a_isDefault = True, a_lines = ''1 Main Road''\<rparr>"

definition shop :: state where
  "shop = \<lparr>db_orders = [], db_products = [0 \<mapsto> productP, 1 \<mapsto> productQ],
     db_catalog = [entryP, entryQ], db_quotes = Map.empty, cf_sessions = [], cf_refunds = []\<rparr>"

definition cart :: "cart_item list" where
  "cart = [\<lparr>ci_productId = 0, ci_quantity = 5\<rparr>, \<lparr>ci_productId = 1, ci_quantity = 3\<rparr>]"

definition numbers :: "nat \<Rightarrow> string" where
  "numbers k = ''GFT-B2B-20260101-000'' @ decimal k"

definition paying_gateway :: gateway where
  "paying_gateway =
     \<lparr>createCashfreeOrder = (\<lambda>_. Some ''session_1''),
      getCashfreeOrder = (\<lambda>_. Some ''PAID''),
      getCashfreePayments = (\<lambda>_. Some [\<lparr>payment_status = ''SUCCESS'', cf_payment_id = Some 42\<rparr>]),
      createRefund = (\<lambda>_. True)\<rparr>"

definition failing_gateway :: gateway where
  "failing_gateway =
     \<lparr>createCashfreeOrder = (\<lambda>_. None),
      getCashfreeOrder = (\<lambda>_. None),
      getCashfreePayments = (\<lambda>_. None),
      createRefund = (\<lambda>_. False)\<rparr>"

text \<open>The checked items of the cart, and the seller groups they form.\<close>

definition itemP :: group_item where
  "itemP = \<lparr>g_productId = 0, g_product = productP, g_quantity = 5, g_unitPrice = 100,
     g_catalogEntry = entryP\<rparr>"

definition itemQ :: group_item where
  "itemQ = \<lparr>g_productId = 1, g_product = productQ, g_quantity = 3, g_unitPrice = 50,
     g_catalogEntry = entryQ\<rparr>"

definition cart_groups :: "(string \<times> group_item list) list" where
  "cart_groups = [(''S1'', [itemP]), (''S2'', [itemQ])]"

text \<open>A cart with two lines of product P around one of Q, and its seller groups.\<close>

definition mixed_cart :: "cart_item list" where
  "mixed_cart = [\<lparr>ci_productId = 0, ci_quantity = 5\<rparr>, \<lparr>ci_productId = 1, ci_quantity = 3\<rparr>,
                 \<lparr>ci_productId = 0, ci_quantity = 2\<rparr>]"

definition mixed_groups :: "(string \<times> group_item list) list" where
  "mixed_groups = [(''S1'', [itemP, itemP\<lparr>g_quantity := 2\<rparr>]), (''S2'', [itemQ])]"

text \<open>The same shop with a corporate price of zero on product Q.\<close>

definition zero_priced :: state where
  "zero_priced = shop\<lparr>db_catalog := [entryP, entryQ\<lparr>corporatePrice := Some 0\<rparr>]\<rparr>"



text \<open>The state once the cart has been ordered, and once the payment has been verified.\<close>

definition placed :: state where
  "placed = snd (create_order paying_gateway numbers buyer cart (Some depot) shop)"

definition paid :: state where
  "paid = snd (verify_payment paying_gateway 1000 buyer (Some (numbers 0)) placed)"

text \<open>A quote sent to the buyer, valid until time 500.\<close>

definition offer :: quote where
  "offer = \<lparr>quoteNumber = ''Q-1'', q_companyName = ''Acme'', corporateUserId = Some 7,
     contactEmail = ''purchasing@acme.example'', q_status = ''sent'', validUntil = Some 500,
     q_items = [\<lparr>qi_productId = 0, qi_title = ''P'', qi_unitPrice = 90, qi_image = [],
                 qi_quantity = 10\<rparr>],
     q_totalAmount = 900, finalAmount = 900, convertedOrderId = None, clientNotes = []\<rparr>"

definition quoted :: state where
  "quoted = shop\<lparr>db_quotes := [0 \<mapsto> offer]\<rparr>"


section \<open>Predicates of the properties\<close>

text \<open>Every product has a stock that is not negative.\<close>

definition stock_nonneg :: "(product_id \<rightharpoonup> product) \<Rightarrow> bool" where
  "stock_nonneg ps = (\<forall>pid p. ps pid = Some p \<longrightarrow> 0 \<le> p_stock p)"

text \<open>The sum of a product's stock and its order counter.\<close>

definition stock_plus_orderCount :: "(product_id \<rightharpoonup> product) \<Rightarrow> product_id \<Rightarrow> int option" where
  "stock_plus_orderCount ps pid = map_option (\<lambda>p. p_stock p + p_orderCount p) (ps pid)"

text \<open>The line items of the orders that a verification marks paid, in the order it visits them.\<close>

definition items_to_confirm :: "(order_id \<times> order) list \<Rightarrow> order_item list" where
  "items_to_confirm found =
     concat (map (\<lambda>io. o_items (snd io)) (filter (\<lambda>io. paymentStatus (snd io) \<noteq> ''paid'') found))"

text \<open>The total of a seller's items, and of all the sellers' items.\<close>

definition group_total :: "group_item list \<Rightarrow> int" where
  "group_total its = sum_list (map (\<lambda>i. g_unitPrice i * g_quantity i) its)"

definition cart_total :: "(string \<times> group_item list) list \<Rightarrow> int" where
  "cart_total groups = sum_list (map (\<lambda>g. group_total (snd g)) groups)"

text \<open>The orders that the creation loop builds from the seller groups, in its order.\<close>

fun planned_orders ::
  "corporate_user \<Rightarrow> address \<Rightarrow> (nat \<Rightarrow> string) \<Rightarrow> nat \<Rightarrow> (string \<times> group_item list) list \<Rightarrow> order list" where
  "planned_orders corpUser addr gen k [] = []"
| "planned_orders corpUser addr gen k (g # rest) =
     new_order corpUser addr (gen k) (fst g) (snd g) # planned_orders corpUser addr gen (Suc k) rest"

text \<open>The seller groups after pushing a list of checked items, as the validation loop does.\<close>

fun push_all :: "group_item list \<Rightarrow> (string \<times> group_item list) list \<Rightarrow> (string \<times> group_item list) list" where
  "push_all [] gs = gs"
| "push_all (gi # gis) gs = push_all gis (push_group (p_sellerId (g_product gi)) gi gs)"

text \<open>The seller that fulfils a cart item that passes the checks.\<close>

definition seller_of :: "catalog_entry list \<Rightarrow> (product_id \<rightharpoonup> product) \<Rightarrow> cart_item \<Rightarrow> string option" where
  "seller_of catalog ps item =
     (case check_item catalog ps item of Inl e \<Rightarrow> None | Inr gi \<Rightarrow> Some (p_sellerId (g_product gi)))"

text \<open>The unit price of a cart item: the source's price expression on its catalog entry and product.\<close>

definition price_of :: "catalog_entry list \<Rightarrow> (product_id \<rightharpoonup> product) \<Rightarrow> cart_item \<Rightarrow> int" where
  "price_of catalog ps item =
     (case find_catalog_entry catalog (ci_productId item) of
        None \<Rightarrow> 0
      | Some catalogEntry \<Rightarrow>
          (case ps (ci_productId item) of None \<Rightarrow> 0 | Some product \<Rightarrow> unit_price catalogEntry product))"

text \<open>The cart's items that a seller fulfils, in cart order.\<close>

definition items_of_seller ::
  "catalog_entry list \<Rightarrow> (product_id \<rightharpoonup> product) \<Rightarrow> string \<Rightarrow> cart_item list \<Rightarrow> cart_item list" where
  "items_of_seller catalog ps sellerId items =
     filter (\<lambda>it. seller_of catalog ps it = Some sellerId) items"

text \<open>The items grouped under a seller's id.\<close>

definition group_of :: "string \<Rightarrow> (string \<times> group_item list) list \<Rightarrow> group_item list" where
  "group_of sid gs = (case map_of gs sid of None \<Rightarrow> [] | Some v \<Rightarrow> v)"




text \<open>Two order documents agree on the fields that \<open>Order.find\<close> of verification matches.\<close>

definition same_keys :: "order \<Rightarrow> order \<Rightarrow> bool" where
  "same_keys a b = (cashfreeOrderId a = cashfreeOrderId b \<and> customerEmail a = customerEmail b)"

text \<open>The quote is stored and its status is \<open>expired\<close>.\<close>

definition expired_quote :: "quote_id \<Rightarrow> state \<Rightarrow> bool" where
  "expired_quote qid st = (case db_quotes st qid of None \<Rightarrow> False | Some q \<Rightarrow> q_status q = ''expired'')"

section \<open>Evaluating the scenario\<close>

lemmas scenario_defs = productP_def productQ_def entryP_def entryQ_def buyer_def depot_def
  shop_def cart_def paying_gateway_def failing_gateway_def

lemmas route_defs = create_order_def check_item_def find_catalog_entry_def unit_price_def
  new_order_def order_item_of_def session_request_def with_session_def save_order_def
  normalizePhone_def is_digit_def default_status_def default_paymentStatus_def
  verify_payment_def find_orders_def mark_paid_def payment_reference_def
  decrementIfAtLeast_def restoreStock_def cancel_order_def refund_request_for_def find_order_def
  enumerate_eq_zip Let_def

lemma numbers_eval:
  "numbers 0 = ''GFT-B2B-20260101-0000''" "numbers 1 = ''GFT-B2B-20260101-0001''"
  by (simp_all add: numbers_def decimal.simps digit_char_def)

lemma placed_products: "db_products placed = [0 \<mapsto> productP, 1 \<mapsto> productQ]"
  by (simp add: placed_def scenario_defs route_defs)

section \<open>Stock adjustments of payment verification\<close>

lemma decrement_items_append:
  "decrement_items (xs @ ys) ps = decrement_items ys (decrement_items xs ps)"
  by (induction xs arbitrary: ps) simp_all

text \<open>The products after the loop: the conditional decrements of the orders it marked paid.\<close>

lemma confirm_orders_products:
  "db_products (snd (confirm_orders pay now found st)) =
     decrement_items (items_to_confirm found) (db_products st)"
proof (induction found arbitrary: st)
  case Nil
  show ?case by (simp add: items_to_confirm_def)
next
  case (Cons x rest)
  obtain i ord where x: "x = (i, ord)" by (cases x)
  show ?case
    using Cons.IH x
    by (simp add: split_beta Let_def items_to_confirm_def decrement_items_append
        save_order_def mark_paid_def)
qed

text \<open>A verification either leaves the state as it is, or runs the loop on the orders found.\<close>

lemma verify_payment_effect:
  "snd (verify_payment gw now u orderId st) = st \<or>
   (\<exists>cf pay. orderId = Some cf \<and> snd (verify_payment gw now u orderId st) =
      snd (confirm_orders pay now (find_orders cf (u_email u) (db_orders st)) st))"
  by (cases orderId) (auto simp: verify_payment_def Let_def split_beta split: option.splits)

lemma decrementIfAtLeast_nonneg:
  "stock_nonneg ps \<Longrightarrow> stock_nonneg (decrementIfAtLeast pid q ps)"
  by (auto simp: stock_nonneg_def decrementIfAtLeast_def split: option.splits if_splits)

lemma decrement_items_nonneg:
  "stock_nonneg ps \<Longrightarrow> stock_nonneg (decrement_items items ps)"
  by (induction items arbitrary: ps) (simp_all add: decrementIfAtLeast_nonneg)

text \<open>
  Claim C1.  The stock decrement of payment verification is conditional: on a product whose
  stock is below the quantity it changes nothing, neither the stock nor the order counter.
  Whatever the request and whatever the gateway answers, a verification that starts in a
  state where no product has a negative stock ends in such a state; and all it does to the
  products is to run that conditional decrement for the line items of the orders it marks
  paid.
\<close>

theorem reconciliation_keeps_stock_nonneg:
  "(ps pid = Some p \<and> p_stock p < q \<longrightarrow> decrementIfAtLeast pid q ps = ps) \<and>
   (stock_nonneg (db_products st) \<longrightarrow>
      stock_nonneg (db_products (snd (verify_payment gw now corpUser orderId st)))) \<and>
   (db_products (snd (verify_payment gw now corpUser orderId st)) = db_products st \<or>
    (\<exists>cf. orderId = Some cf \<and>
       db_products (snd (verify_payment gw now corpUser orderId st)) =
         decrement_items (items_to_confirm (find_orders cf (u_email corpUser) (db_orders st)))
           (db_products st)))"
proof (intro conjI impI)
  show "decrementIfAtLeast pid q ps = ps" if "ps pid = Some p \<and> p_stock p < q"
    using that by (simp add: decrementIfAtLeast_def)
next
  show "db_products (snd (verify_payment gw now corpUser orderId st)) = db_products st \<or>
    (\<exists>cf. orderId = Some cf \<and>
       db_products (snd (verify_payment gw now corpUser orderId st)) =
         decrement_items (items_to_confirm (find_orders cf (u_email corpUser) (db_orders st)))
           (db_products st))"
    using verify_payment_effect[of gw now corpUser orderId st]
    by (auto simp: confirm_orders_products)
next
  assume inv: "stock_nonneg (db_products st)"
  from verify_payment_effect[of gw now corpUser orderId st]
  show "stock_nonneg (db_products (snd (verify_payment gw now corpUser orderId st)))"
  proof
    assume "snd (verify_payment gw now corpUser orderId st) = st"
    with inv show ?thesis by simp
  next
    assume "\<exists>cf pay. orderId = Some cf \<and> snd (verify_payment gw now corpUser orderId st) =
      snd (confirm_orders pay now (find_orders cf (u_email corpUser) (db_orders st)) st)"
    then obtain cf pay where "snd (verify_payment gw now corpUser orderId st) =
      snd (confirm_orders pay now (find_orders cf (u_email corpUser) (db_orders st)) st)"
      by blast
    with inv show ?thesis
      by (simp add: confirm_orders_products decrement_items_nonneg)
  qed
qed

text \<open>
  In the scenario: product P has 20 units, so a decrement by 21 changes nothing; verifying
  the payment of the two orders takes 5 units of P and leaves every stock non-negative.
\<close>

theorem reconciliation_keeps_stock_nonneg_witness:
  "db_products placed 0 = Some productP \<and> p_stock productP < 21 \<and>
   decrementIfAtLeast 0 21 (db_products placed) = db_products placed \<and>
   stock_nonneg (db_products placed) \<and> stock_nonneg (db_products paid) \<and>
   map_option p_stock (db_products paid 0) = Some 15"
proof -
  have inv: "stock_nonneg (db_products placed)"
    by (simp add: placed_products stock_nonneg_def productP_def productQ_def)
  have low: "db_products placed 0 = Some productP \<and> p_stock productP < 21"
    by (simp add: placed_products productP_def)
  have after: "map_option p_stock (db_products paid 0) = Some 15"
    by (simp add: paid_def placed_def scenario_defs route_defs numbers_eval
        decimal.simps digit_char_def)
  from reconciliation_keeps_stock_nonneg
         [of "db_products placed" 0 productP 21 placed paying_gateway 1000 buyer "Some (numbers 0)"]
       inv low after
  show ?thesis by (simp add: paid_def)
qed

section \<open>Stock and order counter move together\<close>

lemma decrementIfAtLeast_sum:
  "stock_plus_orderCount (decrementIfAtLeast pid q ps) = stock_plus_orderCount ps"
  by (rule ext) (simp add: stock_plus_orderCount_def decrementIfAtLeast_def split: option.splits)

lemma restoreStock_sum:
  "stock_plus_orderCount (restoreStock pid q ps) = stock_plus_orderCount ps"
  by (rule ext) (simp add: stock_plus_orderCount_def restoreStock_def split: option.splits)

lemma decrement_items_sum:
  "stock_plus_orderCount (decrement_items items ps) = stock_plus_orderCount ps"
  by (induction items arbitrary: ps) (simp_all add: decrementIfAtLeast_sum)

lemma restore_items_sum:
  "stock_plus_orderCount (restore_items items ps) = stock_plus_orderCount ps"
  by (induction items arbitrary: ps) (simp_all add: restoreStock_sum)

lemma verify_payment_sum:
  "stock_plus_orderCount (db_products (snd (verify_payment gw now u orderId st))) =
     stock_plus_orderCount (db_products st)"
  using verify_payment_effect[of gw now u orderId st]
  by (auto simp: confirm_orders_products decrement_items_sum)

lemma cancel_order_sum:
  "stock_plus_orderCount (db_products (snd (cancel_order gw now u i reason st))) =
     stock_plus_orderCount (db_products st)"
  by (simp add: cancel_order_def Let_def save_order_def restore_items_sum split: option.splits)

text \<open>
  Claim C10.  Each per-item adjustment keeps stock + orderCount of every product: the
  conditional update of verification either changes nothing or takes q from the stock and
  adds q to the counter in one update; the restore of cancellation adds q to the stock and
  takes q from the counter in one update.  So a whole verification and a whole cancellation
  keep the sum of every product.
\<close>

theorem stock_and_orderCount_move_together:
  "stock_plus_orderCount (decrementIfAtLeast pid q ps) = stock_plus_orderCount ps \<and>
   (decrementIfAtLeast pid q ps = ps \<or>
    (\<exists>p. ps pid = Some p \<and>
         decrementIfAtLeast pid q ps =
           ps(pid \<mapsto> p\<lparr>p_stock := p_stock p - q, p_orderCount := p_orderCount p + q\<rparr>))) \<and>
   stock_plus_orderCount (restoreStock pid q ps) = stock_plus_orderCount ps \<and>
   (restoreStock pid q ps = ps \<or>
    (\<exists>p. ps pid = Some p \<and>
         restoreStock pid q ps =
           ps(pid \<mapsto> p\<lparr>p_stock := p_stock p + q, p_orderCount := p_orderCount p - q\<rparr>))) \<and>
   stock_plus_orderCount (db_products (snd (verify_payment gw now corpUser orderId st))) =
     stock_plus_orderCount (db_products st) \<and>
   stock_plus_orderCount (db_products (snd (cancel_order gw' now' corpUser' i reason st))) =
     stock_plus_orderCount (db_products st)"
proof (intro conjI)
  show "decrementIfAtLeast pid q ps = ps \<or>
    (\<exists>p. ps pid = Some p \<and>
         decrementIfAtLeast pid q ps =
           ps(pid \<mapsto> p\<lparr>p_stock := p_stock p - q, p_orderCount := p_orderCount p + q\<rparr>))"
    by (simp add: decrementIfAtLeast_def split: option.splits)
  show "restoreStock pid q ps = ps \<or>
    (\<exists>p. ps pid = Some p \<and>
         restoreStock pid q ps =
           ps(pid \<mapsto> p\<lparr>p_stock := p_stock p + q, p_orderCount := p_orderCount p - q\<rparr>))"
    by (simp add: restoreStock_def split: option.splits)
qed (simp_all add: decrementIfAtLeast_sum restoreStock_sum verify_payment_sum cancel_order_sum)

text \<open>In the scenario, P holds 20 + 0 before the payment is verified and 15 + 5 after.\<close>

theorem stock_and_orderCount_move_together_witness:
  "stock_plus_orderCount (db_products paid) 0 = Some 20 \<and>
   map_option p_stock (db_products paid 0) = Some 15 \<and>
   map_option p_orderCount (db_products paid 0) = Some 5"
proof -
  have before: "stock_plus_orderCount (db_products placed) 0 = Some 20"
    by (simp add: placed_products stock_plus_orderCount_def productP_def)
  have after: "map_option p_stock (db_products paid 0) = Some 15 \<and>
      map_option p_orderCount (db_products paid 0) = Some 5"
    by (simp add: paid_def placed_def scenario_defs route_defs numbers_eval
        decimal.simps digit_char_def)
  from stock_and_orderCount_move_together
         [of 0 5 "db_products placed" paying_gateway 1000 buyer "Some (numbers 0)" placed]
       before after
  show ?thesis by (simp add: paid_def)
qed

section \<open>Order assembly\<close>

lemma foldl_plus: "foldl (\<lambda>s x. s + f x) a xs = (a::int) + sum_list (map f xs)"
  by (induction xs arbitrary: a) simp_all

lemma new_order_total: "totalAmount (new_order u a n sid its) = group_total its"
  by (simp add: new_order_def Let_def group_total_def foldl_plus)

lemma save_new_orders_eq:
  "save_new_orders u a gen k groups st =
     (zip [length (db_orders st) ..< length (db_orders st) + length groups] (planned_orders u a gen k groups),
      st\<lparr>db_orders := db_orders st @ planned_orders u a gen k groups\<rparr>)"
proof (induction groups arbitrary: k st)
  case Nil
  show ?case by simp
next
  case (Cons g rest)
  obtain sid its where g: "g = (sid, its)" by (cases g)
  show ?case
    by (simp add: g Cons.IH Let_def upt_conv_Cons del: upt_Suc)
qed

lemma backfill_session_eq:
  "db_orders st = pre @ os \<Longrightarrow>
   backfill_session cf sess (zip [length pre ..< length pre + length os] os) st =
     (zip [length pre ..< length pre + length os] (map (with_session cf sess) os),
      st\<lparr>db_orders := pre @ map (with_session cf sess) os\<rparr>)"
proof (induction os arbitrary: pre st)
  case Nil
  then show ?case by simp
next
  case (Cons x os)
  have st1: "db_orders (save_order (length pre) (with_session cf sess x) st) = (pre @ [with_session cf sess x]) @ os"
    using Cons.prems by (simp add: save_order_def)
  from Cons.IH[OF st1]
  show ?case
    by (simp add: upt_conv_Cons save_order_def del: upt_Suc)
qed

lemma planned_orders_total:
  "sum_list (map totalAmount (planned_orders u a gen k groups)) = cart_total groups"
  by (induction groups arbitrary: k) (simp_all add: cart_total_def new_order_total)

lemma length_planned_orders [simp]: "length (planned_orders u a gen k groups) = length groups"
  by (induction groups arbitrary: k) simp_all

lemma foldl_zip_total:
  "length is = length os \<Longrightarrow> foldl (\<lambda>s io. s + totalAmount (snd io)) 0 (zip is os) = sum_list (map totalAmount os)"
proof -
  assume len: "length is = length os"
  have "map (\<lambda>io. totalAmount (snd io)) (zip is os) = map totalAmount (map snd (zip is os))"
    by (simp add: comp_def)
  also have "\<dots> = map totalAmount os"
    using len by simp
  finally show ?thesis by (simp add: foldl_plus)
qed

lemma create_order_valid:
  assumes "group_items (db_catalog st) (db_products st) items [] = Inr groups"
    and "groups \<noteq> []"
  shows "create_order gw gen u items (Some addr) st =
     (let new = planned_orders u addr gen 0 groups;
          req = session_request u addr (gen 0) (cart_total groups);
          ids = [length (db_orders st) ..< length (db_orders st) + length groups]
      in case createCashfreeOrder gw req of
           None \<Rightarrow> (Inl FailedToCreateOrder,
                     st\<lparr>db_orders := db_orders st @ new, cf_sessions := cf_sessions st @ [req]\<rparr>)
         | Some sess \<Rightarrow>
             (Inr \<lparr>r_orders = zip ids (map (with_session (gen 0) sess) new),
                   r_cashfreeOrder = \<lparr>ci_orderId = gen 0, ci_paymentSessionId = sess,
                                      ci_orderAmount = cart_total groups\<rparr>\<rparr>,
              st\<lparr>db_orders := db_orders st @ map (with_session (gen 0) sess) new,
                 cf_sessions := cf_sessions st @ [req]\<rparr>))"
proof -
  obtain g rest where groups: "groups = g # rest" using assms(2) by (cases groups) auto
  have items: "items \<noteq> []" using assms by (cases items) auto
  let ?n = "length (db_orders st)"
  let ?new = "planned_orders u addr gen 0 groups"
  let ?ids = "[?n ..< ?n + length groups]"
  let ?st1 = "st\<lparr>db_orders := db_orders st @ ?new\<rparr>"
  have saved: "save_new_orders u addr gen 0 groups st = (zip ?ids ?new, ?st1)"
    by (rule save_new_orders_eq)
  have nonempty: "zip ?ids ?new = (?n, new_order u addr (gen 0) (fst g) (snd g)) # zip [Suc ?n ..< ?n + length groups] (planned_orders u addr gen (Suc 0) rest)"
    by (simp add: groups upt_conv_Cons del: upt_Suc)
  have total: "foldl (\<lambda>s io. s + totalAmount (snd io)) 0 (zip ?ids ?new) = cart_total groups"
    by (simp add: foldl_zip_total planned_orders_total)
  have first: "orderNumber (new_order u addr (gen 0) (fst g) (snd g)) = gen 0"
    by (simp add: new_order_def Let_def)
  let ?req = "session_request u addr (gen 0) (cart_total groups)"
  let ?st2 = "?st1\<lparr>cf_sessions := cf_sessions ?st1 @ [?req]\<rparr>"
  have fill: "backfill_session (gen 0) sess (zip ?ids ?new) ?st2 =
      (zip ?ids (map (with_session (gen 0) sess) ?new),
       ?st2\<lparr>db_orders := db_orders st @ map (with_session (gen 0) sess) ?new\<rparr>)" for sess
    using backfill_session_eq[of ?st2 "db_orders st" ?new "gen 0" sess] by simp
  have "create_order gw gen u items (Some addr) st =
      (case createCashfreeOrder gw ?req of
         None \<Rightarrow> (Inl FailedToCreateOrder, ?st2)
       | Some sess \<Rightarrow>
           (case backfill_session (gen 0) sess (zip ?ids ?new) ?st2 of
              (orders', st3) \<Rightarrow>
                (Inr \<lparr>r_orders = orders',
                      r_cashfreeOrder = \<lparr>ci_orderId = gen 0, ci_paymentSessionId = sess,
                                         ci_orderAmount = cart_total groups\<rparr>\<rparr>, st3)))"
    unfolding create_order_def using items assms(1)
    apply (simp only: if_False sum.case option.case saved prod.case)
    apply (simp only: nonempty list.case Let_def snd_conv first)
    apply (simp only: nonempty[symmetric] total)
    done
  then show ?thesis
    by (simp only: fill prod.case) (simp add: Let_def split: option.splits)
qed


lemma group_items_Inr:
  "group_items cat ps items g = Inr g' \<Longrightarrow>
     map (check_item cat ps) items = map Inr (map (\<lambda>it. projr (check_item cat ps it)) items) \<and>
     g' = push_all (map (\<lambda>it. projr (check_item cat ps it)) items) g"
proof (induction items arbitrary: g)
  case Nil
  then show ?case by simp
next
  case (Cons it items)
  then show ?case by (cases "check_item cat ps it") simp_all
qed

lemma map_fst_push_group:
  "map fst (push_group sid gi gs) =
     (if sid \<in> set (map fst gs) then map fst gs else map fst gs @ [sid])"
proof (induction gs)
  case Nil
  show ?case by simp
next
  case (Cons kv gs)
  obtain k v where kv: "kv = (k, v)" by (cases kv)
  from Cons show ?case by (simp add: kv)
qed

lemma keys_push_group:
  "fst ` set (push_group sid gi gs) = insert sid (fst ` set gs)"
proof -
  have "set (map fst (push_group sid gi gs)) = insert sid (set (map fst gs))"
    by (simp only: map_fst_push_group) auto
  then show ?thesis by simp
qed

lemma distinct_push_group:
  "distinct (map fst gs) \<Longrightarrow> distinct (map fst (push_group sid gi gs))"
  by (simp only: map_fst_push_group) simp

lemma keys_push_all:
  "fst ` set (push_all gis gs) = fst ` set gs \<union> (\<lambda>gi. p_sellerId (g_product gi)) ` set gis"
  by (induction gis arbitrary: gs) (simp_all add: keys_push_group)

lemma distinct_push_all:
  "distinct (map fst gs) \<Longrightarrow> distinct (map fst (push_all gis gs))"
  by (induction gis arbitrary: gs) (simp_all add: distinct_push_group)

lemma members_push_group:
  "(\<Union>g\<in>set (push_group sid gi gs). set (snd g)) = insert gi (\<Union>g\<in>set gs. set (snd g))"
proof (induction gs)
  case Nil
  show ?case by simp
next
  case (Cons kv gs)
  obtain k v where kv: "kv = (k, v)" by (cases kv)
  from Cons show ?case by (auto simp: kv)
qed

lemma members_push_all:
  "(\<Union>g\<in>set (push_all gis gs). set (snd g)) = (\<Union>g\<in>set gs. set (snd g)) \<union> set gis"
  by (induction gis arbitrary: gs) (simp_all add: members_push_group)

lemma planned_sellers:
  "map o_sellerId (planned_orders u a gen k groups) = map (\<lambda>g. Some (fst g)) groups"
  by (induction groups arbitrary: k) (simp_all add: new_order_def Let_def)

lemma new_order_items_total:
  "totalAmount (new_order u a n sid its) =
     sum_list (map (\<lambda>i. oi_price i * oi_quantity i) (o_items (new_order u a n sid its)))"
  by (simp add: new_order_def Let_def foldl_plus order_item_of_def comp_def)

lemma planned_orders_items_total:
  "ord \<in> set (planned_orders u a gen k groups) \<Longrightarrow>
     totalAmount ord = sum_list (map (\<lambda>i. oi_price i * oi_quantity i) (o_items ord))"
proof (induction groups arbitrary: k)
  case Nil
  then show ?case by simp
next
  case (Cons g groups)
  from Cons.prems have "ord = new_order u a (gen k) (fst g) (snd g) \<or>
      ord \<in> set (planned_orders u a gen (Suc k) groups)" by simp
  then show ?case
  proof
    assume "ord = new_order u a (gen k) (fst g) (snd g)"
    then show ?thesis by (simp only: new_order_items_total)
  next
    assume "ord \<in> set (planned_orders u a gen (Suc k) groups)"
    then show ?thesis by (rule Cons.IH)
  qed
qed

lemma groups_of_valid_cart:
  assumes "group_items cat ps items [] = Inr groups"
  shows "distinct (map fst groups)"
    and "fst ` set groups = (\<lambda>it. p_sellerId (g_product (projr (check_item cat ps it)))) ` set items"
    and "(\<Union>g\<in>set groups. set (snd g)) = (\<lambda>it. projr (check_item cat ps it)) ` set items"
    and "\<forall>it\<in>set items. check_item cat ps it = Inr (projr (check_item cat ps it))"
proof -
  let ?gis = "map (\<lambda>it. projr (check_item cat ps it)) items"
  from group_items_Inr[OF assms]
  have checks: "map (check_item cat ps) items = map Inr ?gis" and groups: "groups = push_all ?gis []"
    by simp_all
  show "distinct (map fst groups)"
    unfolding groups by (rule distinct_push_all) simp
  show "fst ` set groups = (\<lambda>it. p_sellerId (g_product (projr (check_item cat ps it)))) ` set items"
    unfolding groups by (simp add: keys_push_all image_image)
  show "(\<Union>g\<in>set groups. set (snd g)) = (\<lambda>it. projr (check_item cat ps it)) ` set items"
    unfolding groups by (simp add: members_push_all)
  show "\<forall>it\<in>set items. check_item cat ps it = Inr (projr (check_item cat ps it))"
  proof -
    from checks have "map (check_item cat ps) items =
        map (\<lambda>it. Inr (projr (check_item cat ps it))) items"
      by (simp add: comp_def)
    then show ?thesis by (simp only: map_eq_conv)
  qed
qed

lemma sellers_of_valid_cart:
  assumes "group_items cat ps items [] = Inr groups"
  shows "(\<lambda>g. Some (fst g)) ` set groups = seller_of cat ps ` set items"
proof -
  have "seller_of cat ps it = Some (p_sellerId (g_product (projr (check_item cat ps it))))"
    if "it \<in> set items" for it
    using groups_of_valid_cart(4)[OF assms] that
    by (cases "check_item cat ps it") (auto simp: seller_of_def)
  then have "seller_of cat ps ` set items =
      (\<lambda>it. Some (p_sellerId (g_product (projr (check_item cat ps it))))) ` set items"
    by (intro image_cong) simp_all
  also have "\<dots> = Some ` (\<lambda>it. p_sellerId (g_product (projr (check_item cat ps it)))) ` set items"
    by (simp add: image_image)
  also have "\<dots> = Some ` fst ` set groups"
    by (simp only: groups_of_valid_cart(2)[OF assms])
  finally show ?thesis by (simp add: image_image)
qed

lemma groups_nonempty:
  assumes "group_items cat ps items [] = Inr groups" and "items \<noteq> []"
  shows "groups \<noteq> []"
proof
  assume "groups = []"
  with groups_of_valid_cart(2)[OF assms(1)] have "set items = {}" by simp
  with assms(2) show False by simp
qed

lemma check_item_fields:
  "check_item cat ps it = Inr gi \<Longrightarrow>
     g_productId gi = ci_productId it \<and> g_quantity gi = ci_quantity it \<and>
     g_unitPrice gi = price_of cat ps it"
  by (auto simp: check_item_def price_of_def split: option.splits if_splits)

lemma group_of_push_group:
  "group_of s (push_group k gi gs) = group_of s gs @ (if s = k then [gi] else [])"
proof (induction gs)
  case Nil
  show ?case by (simp add: group_of_def)
next
  case (Cons kv gs)
  obtain k' v where kv: "kv = (k', v)" by (cases kv)
  from Cons show ?case by (auto simp: kv group_of_def)
qed

lemma group_of_push_all:
  "group_of s (push_all gis gs) =
     group_of s gs @ filter (\<lambda>gi. p_sellerId (g_product gi) = s) gis"
proof (induction gis arbitrary: gs)
  case Nil
  show ?case by simp
next
  case (Cons gi gis)
  show ?case by (simp add: Cons.IH group_of_push_group)
qed

lemma group_of_member:
  "distinct (map fst gs) \<Longrightarrow> (s, v) \<in> set gs \<Longrightarrow> group_of s gs = v"
  by (simp add: group_of_def)

lemma cart_total_push_group:
  "cart_total (push_group k gi gs) = cart_total gs + g_unitPrice gi * g_quantity gi"
proof (induction gs)
  case Nil
  show ?case by (simp add: cart_total_def group_total_def)
next
  case (Cons kv gs)
  obtain k' v where kv: "kv = (k', v)" by (cases kv)
  from Cons show ?case by (simp add: kv cart_total_def group_total_def)
qed

lemma cart_total_push_all:
  "cart_total (push_all gis gs) =
     cart_total gs + sum_list (map (\<lambda>gi. g_unitPrice gi * g_quantity gi) gis)"
proof (induction gis arbitrary: gs)
  case Nil
  show ?case by simp
next
  case (Cons gi gis)
  show ?case by (simp add: Cons.IH cart_total_push_group)
qed

lemma planned_orders_member:
  "ord \<in> set (planned_orders u a gen k groups) \<Longrightarrow>
     \<exists>g n. g \<in> set groups \<and> ord = new_order u a n (fst g) (snd g)"
proof (induction groups arbitrary: k)
  case Nil
  then show ?case by simp
next
  case (Cons h groups)
  from Cons.prems have "ord = new_order u a (gen k) (fst h) (snd h) \<or>
      ord \<in> set (planned_orders u a gen (Suc k) groups)" by simp
  then show ?case
  proof
    assume "ord = new_order u a (gen k) (fst h) (snd h)"
    then have "h \<in> set (h # groups) \<and> ord = new_order u a (gen k) (fst h) (snd h)" by simp
    then show ?thesis by blast
  next
    assume "ord \<in> set (planned_orders u a gen (Suc k) groups)"
    from Cons.IH[OF this] obtain g n where "g \<in> set groups" "ord = new_order u a n (fst g) (snd g)"
      by blast
    then have "g \<in> set (h # groups) \<and> ord = new_order u a n (fst g) (snd g)" by simp
    then show ?thesis by blast
  qed
qed

text \<open>The group of a seller holds the checked items of the cart that this seller fulfils, in cart order.\<close>

lemma group_of_valid_cart:
  assumes valid: "group_items cat ps items [] = Inr groups" and g: "(s, v) \<in> set groups"
  shows "v = map (\<lambda>it. projr (check_item cat ps it)) (items_of_seller cat ps s items)"
proof -
  let ?f = "\<lambda>it. projr (check_item cat ps it)"
  from group_items_Inr[OF valid] have groups: "groups = push_all (map ?f items) []" by simp
  have "group_of s groups = v"
    using groups_of_valid_cart(1)[OF valid] g by (rule group_of_member)
  moreover have "group_of s groups = filter (\<lambda>gi. p_sellerId (g_product gi) = s) (map ?f items)"
    unfolding groups group_of_push_all by (simp add: group_of_def)
  ultimately have "v = filter (\<lambda>gi. p_sellerId (g_product gi) = s) (map ?f items)"
    by simp
  also have "\<dots> = map ?f (filter (\<lambda>it. p_sellerId (g_product (?f it)) = s) items)"
    by (simp add: filter_map comp_def)
  also have "filter (\<lambda>it. p_sellerId (g_product (?f it)) = s) items =
      filter (\<lambda>it. seller_of cat ps it = Some s) items"
  proof (rule filter_cong[OF refl])
    fix it assume "it \<in> set items"
    with groups_of_valid_cart(4)[OF valid] have "check_item cat ps it = Inr (?f it)" by blast
    then show "(p_sellerId (g_product (?f it)) = s) = (seller_of cat ps it = Some s)"
      by (cases "check_item cat ps it") (simp_all add: seller_of_def)
  qed
  finally show ?thesis by (simp add: items_of_seller_def)
qed

lemma checked_lines:
  assumes valid: "group_items cat ps items [] = Inr groups" and sub: "set xs \<subseteq> set items"
  shows "map (\<lambda>oi. (oi_productId oi, oi_quantity oi, oi_price oi))
           (map (order_item_of s) (map (\<lambda>it. projr (check_item cat ps it)) xs)) =
         map (\<lambda>it. (ci_productId it, ci_quantity it, price_of cat ps it)) xs"
    and "group_total (map (\<lambda>it. projr (check_item cat ps it)) xs) =
         sum_list (map (\<lambda>it. price_of cat ps it * ci_quantity it) xs)"
proof -
  have fields: "g_productId (projr (check_item cat ps it)) = ci_productId it \<and>
      g_quantity (projr (check_item cat ps it)) = ci_quantity it \<and>
      g_unitPrice (projr (check_item cat ps it)) = price_of cat ps it" if "it \<in> set xs" for it
  proof -
    from that sub groups_of_valid_cart(4)[OF valid]
    have "check_item cat ps it = Inr (projr (check_item cat ps it))" by blast
    then show ?thesis by (rule check_item_fields)
  qed
  show "map (\<lambda>oi. (oi_productId oi, oi_quantity oi, oi_price oi))
           (map (order_item_of s) (map (\<lambda>it. projr (check_item cat ps it)) xs)) =
         map (\<lambda>it. (ci_productId it, ci_quantity it, price_of cat ps it)) xs"
    using fields by (simp add: order_item_of_def comp_def)
  have "map (\<lambda>i. g_unitPrice i * g_quantity i) (map (\<lambda>it. projr (check_item cat ps it)) xs) =
      map (\<lambda>it. price_of cat ps it * ci_quantity it) xs"
    using fields by (simp add: comp_def)
  then show "group_total (map (\<lambda>it. projr (check_item cat ps it)) xs) =
         sum_list (map (\<lambda>it. price_of cat ps it * ci_quantity it) xs)"
    by (simp only: group_total_def)
qed

lemma cart_total_valid_cart:
  assumes valid: "group_items cat ps items [] = Inr groups"
  shows "cart_total groups = sum_list (map (\<lambda>it. price_of cat ps it * ci_quantity it) items)"
proof -
  let ?f = "\<lambda>it. projr (check_item cat ps it)"
  from group_items_Inr[OF valid] have groups: "groups = push_all (map ?f items) []" by simp
  have "cart_total groups = group_total (map ?f items)"
    by (simp add: groups cart_total_push_all group_total_def) (simp add: cart_total_def)
  then show ?thesis using checked_lines(2)[OF valid subset_refl] by simp
qed



text \<open>
  Claim C4.  For a cart that passes validation and a gateway that returns a session for the
  request made: the route answers with the orders it created and persists exactly these; no
  two of them have the same seller and their sellers are the sellers of the cart's items;
  each order holds, in cart order, exactly the cart's items of its seller (product, quantity
  and unit price), and its total is the sum of unit price times quantity over these items;
  every order carries the one gateway order id and the one payment session; and the session
  was requested, once, for the sum of the orders' totals, which is the sum of unit price
  times quantity over all the cart's items.
\<close>

theorem one_order_per_seller:
  assumes valid: "group_items (db_catalog st) (db_products st) items [] = Inr groups"
    and nonempty: "items \<noteq> []"
    and session: "createCashfreeOrder gw (session_request u addr (gen 0) (cart_total groups)) = Some sess"
  shows "\<exists>created.
      create_order gw gen u items (Some addr) st =
        (Inr \<lparr>r_orders = zip [length (db_orders st) ..< length (db_orders st) + length created] created,
              r_cashfreeOrder = \<lparr>ci_orderId = gen 0, ci_paymentSessionId = sess,
                                 ci_orderAmount = sum_list (map totalAmount created)\<rparr>\<rparr>,
         st\<lparr>db_orders := db_orders st @ created,
            cf_sessions := cf_sessions st @
              [session_request u addr (gen 0) (sum_list (map totalAmount created))]\<rparr>) \<and>
      distinct (map o_sellerId created) \<and>
      set (map o_sellerId created) = seller_of (db_catalog st) (db_products st) ` set items \<and>
      (\<forall>ord\<in>set created.
         totalAmount ord = sum_list (map (\<lambda>i. oi_price i * oi_quantity i) (o_items ord)) \<and>
         cashfreeOrderId ord = Some (gen 0) \<and> paymentSessionId ord = Some sess \<and>
         (\<exists>s. o_sellerId ord = Some s \<and>
            map (\<lambda>oi. (oi_productId oi, oi_quantity oi, oi_price oi)) (o_items ord) =
              map (\<lambda>it. (ci_productId it, ci_quantity it, price_of (db_catalog st) (db_products st) it))
                (items_of_seller (db_catalog st) (db_products st) s items) \<and>
            totalAmount ord =
              sum_list (map (\<lambda>it. price_of (db_catalog st) (db_products st) it * ci_quantity it)
                (items_of_seller (db_catalog st) (db_products st) s items)))) \<and>
      sum_list (map totalAmount created) =
        sum_list (map (\<lambda>it. price_of (db_catalog st) (db_products st) it * ci_quantity it) items)"
proof -
  let ?cat = "db_catalog st" and ?ps = "db_products st"
  let ?new = "planned_orders u addr gen 0 groups"
  let ?created = "map (with_session (gen 0) sess) ?new"
  have groups: "groups \<noteq> []" using valid nonempty by (rule groups_nonempty)
  have total: "sum_list (map totalAmount ?created) = cart_total groups"
    using planned_orders_total[of u addr gen 0 groups] by (simp add: comp_def with_session_def)
  have route: "create_order gw gen u items (Some addr) st =
        (Inr \<lparr>r_orders = zip [length (db_orders st) ..< length (db_orders st) + length ?created] ?created,
              r_cashfreeOrder = \<lparr>ci_orderId = gen 0, ci_paymentSessionId = sess,
                                 ci_orderAmount = sum_list (map totalAmount ?created)\<rparr>\<rparr>,
         st\<lparr>db_orders := db_orders st @ ?created,
            cf_sessions := cf_sessions st @
              [session_request u addr (gen 0) (sum_list (map totalAmount ?created))]\<rparr>)"
    unfolding total using create_order_valid[OF valid groups, of gw gen u addr] session
    by (simp add: Let_def)
  have sellers: "map o_sellerId ?created = map (\<lambda>g. Some (fst g)) groups"
    using planned_sellers[of u addr gen 0 groups] by (simp add: comp_def with_session_def)
  have "distinct (map (\<lambda>g. Some (fst g)) groups)"
    using groups_of_valid_cart(1)[OF valid] by (simp add: distinct_map inj_on_def)
  then have dist: "distinct (map o_sellerId ?created)" by (simp only: sellers)
  have cover: "set (map o_sellerId ?created) = seller_of ?cat ?ps ` set items"
    by (simp only: sellers set_map sellers_of_valid_cart[OF valid])
  have each: "\<forall>ord\<in>set ?created.
         totalAmount ord = sum_list (map (\<lambda>i. oi_price i * oi_quantity i) (o_items ord)) \<and>
         cashfreeOrderId ord = Some (gen 0) \<and> paymentSessionId ord = Some sess \<and>
         (\<exists>s. o_sellerId ord = Some s \<and>
            map (\<lambda>oi. (oi_productId oi, oi_quantity oi, oi_price oi)) (o_items ord) =
              map (\<lambda>it. (ci_productId it, ci_quantity it, price_of ?cat ?ps it))
                (items_of_seller ?cat ?ps s items) \<and>
            totalAmount ord =
              sum_list (map (\<lambda>it. price_of ?cat ?ps it * ci_quantity it)
                (items_of_seller ?cat ?ps s items)))"
  proof
    fix ord assume "ord \<in> set ?created"
    then obtain ord0 where ord0: "ord0 \<in> set ?new" and ord: "ord = with_session (gen 0) sess ord0"
      by auto
    from planned_orders_member[OF ord0] obtain g n where
      g: "g \<in> set groups" and ord0_eq: "ord0 = new_order u addr n (fst g) (snd g)" by blast
    let ?xs = "items_of_seller ?cat ?ps (fst g) items"
    from g have "(fst g, snd g) \<in> set groups" by simp
    from group_of_valid_cart[OF valid this]
    have lines: "snd g = map (\<lambda>it. projr (check_item ?cat ?ps it)) ?xs" .
    have sub: "set ?xs \<subseteq> set items" by (simp add: items_of_seller_def)
    have seller: "o_sellerId ord = Some (fst g)"
      by (simp add: ord ord0_eq with_session_def new_order_def Let_def)
    have "o_items ord = map (order_item_of (fst g)) (map (\<lambda>it. projr (check_item ?cat ?ps it)) ?xs)"
      using lines by (simp add: ord ord0_eq with_session_def new_order_def Let_def)
    then have stored: "map (\<lambda>oi. (oi_productId oi, oi_quantity oi, oi_price oi)) (o_items ord) =
        map (\<lambda>it. (ci_productId it, ci_quantity it, price_of ?cat ?ps it)) ?xs"
      by (simp only: checked_lines(1)[OF valid sub])
    have "totalAmount ord = group_total (snd g)"
      by (simp add: ord ord0_eq with_session_def new_order_total)
    then have amount: "totalAmount ord = sum_list (map (\<lambda>it. price_of ?cat ?ps it * ci_quantity it) ?xs)"
      using checked_lines(2)[OF valid sub] by (simp only: lines)
    have own: "totalAmount ord = sum_list (map (\<lambda>i. oi_price i * oi_quantity i) (o_items ord))"
      using planned_orders_items_total[OF ord0] by (simp add: ord with_session_def)
    have ids: "cashfreeOrderId ord = Some (gen 0) \<and> paymentSessionId ord = Some sess"
      by (simp add: ord with_session_def)
    from own ids seller stored amount
    show "totalAmount ord = sum_list (map (\<lambda>i. oi_price i * oi_quantity i) (o_items ord)) \<and>
         cashfreeOrderId ord = Some (gen 0) \<and> paymentSessionId ord = Some sess \<and>
         (\<exists>s. o_sellerId ord = Some s \<and>
            map (\<lambda>oi. (oi_productId oi, oi_quantity oi, oi_price oi)) (o_items ord) =
              map (\<lambda>it. (ci_productId it, ci_quantity it, price_of ?cat ?ps it))
                (items_of_seller ?cat ?ps s items) \<and>
            totalAmount ord =
              sum_list (map (\<lambda>it. price_of ?cat ?ps it * ci_quantity it)
                (items_of_seller ?cat ?ps s items)))"
      by blast
  qed
  have grand: "sum_list (map totalAmount ?created) =
      sum_list (map (\<lambda>it. price_of ?cat ?ps it * ci_quantity it) items)"
    by (simp only: total cart_total_valid_cart[OF valid])
  from route dist cover each grand show ?thesis by blast
qed


lemma cart_valid: "group_items (db_catalog shop) (db_products shop) cart [] = Inr cart_groups"
  by (simp add: scenario_defs check_item_def find_catalog_entry_def unit_price_def
      cart_groups_def itemP_def itemQ_def)

lemma cart_total_eval: "cart_total cart_groups = 650"
  by (simp add: cart_total_def group_total_def cart_groups_def itemP_def itemQ_def)

lemma mixed_cart_valid:
  "group_items (db_catalog shop) (db_products shop) mixed_cart [] = Inr mixed_groups"
  by (simp add: scenario_defs check_item_def find_catalog_entry_def unit_price_def
      mixed_cart_def mixed_groups_def itemP_def itemQ_def)

text \<open>
  A cart with two lines for seller S1 and one for S2: S1's order holds both of its lines and
  totals 700, S2's holds its one line and totals 150, and the one session is requested for 850.
\<close>

theorem one_order_per_seller_witness:
  "group_items (db_catalog shop) (db_products shop) mixed_cart [] = Inr mixed_groups \<and>
   mixed_cart \<noteq> [] \<and>
   createCashfreeOrder paying_gateway
     (session_request buyer depot (numbers 0) (cart_total mixed_groups)) = Some ''session_1'' \<and>
   distinct (map o_sellerId
     (db_orders (snd (create_order paying_gateway numbers buyer mixed_cart (Some depot) shop)))) \<and>
   sum_list (map totalAmount
     (db_orders (snd (create_order paying_gateway numbers buyer mixed_cart (Some depot) shop)))) =
     sum_list (map (\<lambda>it. price_of (db_catalog shop) (db_products shop) it * ci_quantity it) mixed_cart) \<and>
   map (\<lambda>it. price_of (db_catalog shop) (db_products shop) it * ci_quantity it) mixed_cart =
     [500, 150, 200] \<and>
   map (\<lambda>ord. (o_sellerId ord, map (\<lambda>oi. (oi_productId oi, oi_quantity oi, oi_price oi)) (o_items ord),
               totalAmount ord, cashfreeOrderId ord, paymentSessionId ord))
     (db_orders (snd (create_order paying_gateway numbers buyer mixed_cart (Some depot) shop))) =
     [(Some ''S1'', [(0, 5, 100), (0, 2, 100)], 700, Some (numbers 0), Some ''session_1''),
      (Some ''S2'', [(1, 3, 50)], 150, Some (numbers 0), Some ''session_1'')] \<and>
   map (\<lambda>req. (cr_orderId req, cr_orderAmount req))
     (cf_sessions (snd (create_order paying_gateway numbers buyer mixed_cart (Some depot) shop))) =
     [(numbers 0, 850)]"
proof -
  let ?st' = "snd (create_order paying_gateway numbers buyer mixed_cart (Some depot) shop)"
  have h2: "mixed_cart \<noteq> []" by (simp add: mixed_cart_def)
  have h3: "createCashfreeOrder paying_gateway
      (session_request buyer depot (numbers 0) (cart_total mixed_groups)) = Some ''session_1''"
    by (simp add: paying_gateway_def)
  from one_order_per_seller[where st = shop and items = mixed_cart and groups = mixed_groups
         and gw = paying_gateway and u = buyer and addr = depot and gen = numbers
         and sess = "''session_1''", OF mixed_cart_valid h2 h3]
  obtain created where
    run: "create_order paying_gateway numbers buyer mixed_cart (Some depot) shop =
        (Inr \<lparr>r_orders = zip [length (db_orders shop) ..< length (db_orders shop) + length created] created,
              r_cashfreeOrder = \<lparr>ci_orderId = numbers 0, ci_paymentSessionId = ''session_1'',
                                 ci_orderAmount = sum_list (map totalAmount created)\<rparr>\<rparr>,
         shop\<lparr>db_orders := db_orders shop @ created,
            cf_sessions := cf_sessions shop @
              [session_request buyer depot (numbers 0) (sum_list (map totalAmount created))]\<rparr>)"
    and dist: "distinct (map o_sellerId created)"
    and grand: "sum_list (map totalAmount created) =
        sum_list (map (\<lambda>it. price_of (db_catalog shop) (db_products shop) it * ci_quantity it) mixed_cart)"
    by blast
  from run have "db_orders ?st' = created" by (simp add: shop_def)
  with dist grand have d: "distinct (map o_sellerId (db_orders ?st'))"
    and g: "sum_list (map totalAmount (db_orders ?st')) =
        sum_list (map (\<lambda>it. price_of (db_catalog shop) (db_products shop) it * ci_quantity it) mixed_cart)"
    by simp_all
  have prices: "map (\<lambda>it. price_of (db_catalog shop) (db_products shop) it * ci_quantity it) mixed_cart =
     [500, 150, 200]"
    by (simp add: mixed_cart_def price_of_def scenario_defs find_catalog_entry_def unit_price_def)
  have eval: "map (\<lambda>ord. (o_sellerId ord, map (\<lambda>oi. (oi_productId oi, oi_quantity oi, oi_price oi)) (o_items ord),
               totalAmount ord, cashfreeOrderId ord, paymentSessionId ord)) (db_orders ?st') =
     [(Some ''S1'', [(0, 5, 100), (0, 2, 100)], 700, Some (numbers 0), Some ''session_1''),
      (Some ''S2'', [(1, 3, 50)], 150, Some (numbers 0), Some ''session_1'')]"
    and log: "map (\<lambda>req. (cr_orderId req, cr_orderAmount req)) (cf_sessions ?st') = [(numbers 0, 850)]"
    by (simp_all add: mixed_cart_def scenario_defs route_defs numbers_eval)
  from mixed_cart_valid h2 h3 d g prices eval log show ?thesis by (intro conjI)
qed

lemma planned_orders_fresh:
  "ord \<in> set (planned_orders u a gen k groups) \<Longrightarrow>
     status ord = ''pending'' \<and> paymentStatus ord = ''unpaid'' \<and>
     cashfreeOrderId ord = None \<and> paymentSessionId ord = None"
  by (induction groups arbitrary: k)
     (auto simp: new_order_def Let_def default_status_def default_paymentStatus_def)

text \<open>
  Claim C8.  For a cart that passes validation and a gateway that fails the session request:
  the route answers with status 500, and the state is the old one plus the new orders (one
  per seller group, at least one) and the failed request; every new order is pending and
  unpaid and carries no gateway order id and no session.  Nothing is deleted or rolled back.
\<close>

theorem orders_stay_when_session_fails:
  assumes valid: "group_items (db_catalog st) (db_products st) items [] = Inr groups"
    and nonempty: "items \<noteq> []"
    and fails: "createCashfreeOrder gw (session_request u addr (gen 0) (cart_total groups)) = None"
  shows "\<exists>new.
      create_order gw gen u items (Some addr) st =
        (Inl FailedToCreateOrder,
         st\<lparr>db_orders := db_orders st @ new,
            cf_sessions := cf_sessions st @ [session_request u addr (gen 0) (cart_total groups)]\<rparr>) \<and>
      http_status FailedToCreateOrder = 500 \<and>
      new \<noteq> [] \<and> map o_sellerId new = map (\<lambda>g. Some (fst g)) groups \<and>
      (\<forall>ord\<in>set new. status ord = ''pending'' \<and> paymentStatus ord = ''unpaid'' \<and>
         cashfreeOrderId ord = None \<and> paymentSessionId ord = None)"
proof -
  let ?new = "planned_orders u addr gen 0 groups"
  have groups: "groups \<noteq> []" using valid nonempty by (rule groups_nonempty)
  have route: "create_order gw gen u items (Some addr) st =
        (Inl FailedToCreateOrder,
         st\<lparr>db_orders := db_orders st @ ?new,
            cf_sessions := cf_sessions st @ [session_request u addr (gen 0) (cart_total groups)]\<rparr>)"
    using create_order_valid[OF valid groups, of gw gen u addr] fails by (simp add: Let_def)
  have ne: "?new \<noteq> []" using groups by (cases groups) simp_all
  have fresh: "\<forall>ord\<in>set ?new. status ord = ''pending'' \<and> paymentStatus ord = ''unpaid'' \<and>
         cashfreeOrderId ord = None \<and> paymentSessionId ord = None"
    using planned_orders_fresh by blast
  from route ne fresh planned_sellers[of u addr gen 0 groups] show ?thesis
    by (intro exI[of _ ?new]) simp
qed

text \<open>The scenario with a gateway that fails: both orders stay, pending and unpaid.\<close>

theorem orders_stay_when_session_fails_witness:
  "group_items (db_catalog shop) (db_products shop) cart [] = Inr cart_groups \<and> cart \<noteq> [] \<and>
   createCashfreeOrder failing_gateway (session_request buyer depot (numbers 0) (cart_total cart_groups))
     = None \<and>
   fst (create_order failing_gateway numbers buyer cart (Some depot) shop) = Inl FailedToCreateOrder \<and>
   map (\<lambda>ord. (status ord, paymentStatus ord))
     (db_orders (snd (create_order failing_gateway numbers buyer cart (Some depot) shop))) =
     [(''pending'', ''unpaid''), (''pending'', ''unpaid'')]"
proof -
  have h2: "cart \<noteq> []" by (simp add: cart_def)
  have h3: "createCashfreeOrder failing_gateway
      (session_request buyer depot (numbers 0) (cart_total cart_groups)) = None"
    by (simp add: failing_gateway_def)
  from orders_stay_when_session_fails[where st = shop and items = cart and groups = cart_groups
         and gw = failing_gateway and u = buyer and addr = depot and gen = numbers,
         OF cart_valid h2 h3]
  obtain new where
    run: "create_order failing_gateway numbers buyer cart (Some depot) shop =
        (Inl FailedToCreateOrder,
         shop\<lparr>db_orders := db_orders shop @ new,
            cf_sessions := cf_sessions shop @
              [session_request buyer depot (numbers 0) (cart_total cart_groups)]\<rparr>)"
    and sellers: "map o_sellerId new = map (\<lambda>g. Some (fst g)) cart_groups"
    and fresh: "\<forall>ord\<in>set new. status ord = ''pending'' \<and> paymentStatus ord = ''unpaid'' \<and>
         cashfreeOrderId ord = None \<and> paymentSessionId ord = None"
    by blast
  from sellers have "length new = 2"
    using length_map[of o_sellerId new] by (simp add: cart_groups_def)
  then obtain a b where new: "new = [a, b]"
    by (cases new; cases "tl new"; cases "tl (tl new)") auto
  from fresh have "map (\<lambda>ord. (status ord, paymentStatus ord)) new =
      [(''pending'', ''unpaid''), (''pending'', ''unpaid'')]"
    by (simp add: new)
  with run cart_valid h2 h3 show ?thesis by (simp add: shop_def)
qed

section \<open>The unit price on the order\<close>

lemma check_item_Inr:
  "check_item cat ps it = Inr gi \<Longrightarrow>
     \<exists>ce p. find_catalog_entry cat (ci_productId it) = Some ce \<and> ps (ci_productId it) = Some p \<and>
       g_productId gi = ci_productId it \<and> g_quantity gi = ci_quantity it \<and>
       g_unitPrice gi = unit_price ce p"
  by (auto simp: check_item_def split: option.splits if_splits)

lemma planned_orders_of_group:
  "g \<in> set groups \<Longrightarrow>
     \<exists>ord\<in>set (planned_orders u a gen k groups). o_items ord = map (order_item_of (fst g)) (snd g)"
proof (induction groups arbitrary: k)
  case Nil
  then show ?case by simp
next
  case (Cons h groups)
  from Cons.prems have "g = h \<or> g \<in> set groups" by auto
  then show ?case
  proof
    assume "g = h"
    then show ?thesis by (simp add: new_order_def Let_def)
  next
    assume "g \<in> set groups"
    from Cons.IH[OF this, of "Suc k"] show ?thesis by auto
  qed
qed

lemma create_order_persists:
  assumes "group_items (db_catalog st) (db_products st) items [] = Inr groups" and "items \<noteq> []"
  shows "\<exists>new. db_orders (snd (create_order gw gen u items (Some addr) st)) = db_orders st @ new \<and>
      map o_items new = map o_items (planned_orders u addr gen 0 groups)"
proof -
  have groups: "groups \<noteq> []" using assms by (rule groups_nonempty)
  show ?thesis
  proof (cases "createCashfreeOrder gw (session_request u addr (gen 0) (cart_total groups))")
    case None
    with create_order_valid[OF assms(1) groups, of gw gen u addr] show ?thesis
      by (simp add: Let_def)
  next
    case (Some sess)
    with create_order_valid[OF assms(1) groups, of gw gen u addr] show ?thesis
      by (simp add: Let_def comp_def with_session_def)
  qed
qed

text \<open>
  Claim C9, as amended.  For every item of a cart that passes validation, the route persists
  an order with a line for that product and quantity whose price is the catalog entry's
  corporate price when that price is set and not zero, and the product's base price when the
  corporate price is absent or zero.  This holds whether or not the gateway then returns a
  session.
\<close>

theorem stored_unit_price:
  assumes valid: "group_items (db_catalog st) (db_products st) items [] = Inr groups"
    and it: "it \<in> set items"
  shows "\<exists>ce p new.
      find_catalog_entry (db_catalog st) (ci_productId it) = Some ce \<and>
      db_products st (ci_productId it) = Some p \<and>
      db_orders (snd (create_order gw gen u items (Some addr) st)) = db_orders st @ new \<and>
      (\<exists>ord\<in>set new. \<exists>oi\<in>set (o_items ord).
         oi_productId oi = ci_productId it \<and> oi_quantity oi = ci_quantity it \<and>
         oi_price oi = (case corporatePrice ce of
                          None \<Rightarrow> p_price p
                        | Some c \<Rightarrow> if c = 0 then p_price p else c))"
proof -
  let ?gi = "projr (check_item (db_catalog st) (db_products st) it)"
  have nonempty: "items \<noteq> []" using it by auto
  from groups_of_valid_cart(4)[OF valid] it
  have check: "check_item (db_catalog st) (db_products st) it = Inr ?gi" by blast
  from check_item_Inr[OF check] obtain ce p where
    ce: "find_catalog_entry (db_catalog st) (ci_productId it) = Some ce" and
    p: "db_products st (ci_productId it) = Some p" and
    gi: "g_productId ?gi = ci_productId it" "g_quantity ?gi = ci_quantity it"
        "g_unitPrice ?gi = unit_price ce p"
    by blast
  from groups_of_valid_cart(3)[OF valid] it have "?gi \<in> (\<Union>g\<in>set groups. set (snd g))"
    by blast
  then obtain g where g: "g \<in> set groups" and mem: "?gi \<in> set (snd g)" by blast
  from create_order_persists[OF valid nonempty, of gw gen u addr] obtain new where
    new: "db_orders (snd (create_order gw gen u items (Some addr) st)) = db_orders st @ new" and
    same: "map o_items new = map o_items (planned_orders u addr gen 0 groups)"
    by blast
  from planned_orders_of_group[OF g, of u addr gen 0] obtain ord0 where
    ord0: "ord0 \<in> set (planned_orders u addr gen 0 groups)" and
    items0: "o_items ord0 = map (order_item_of (fst g)) (snd g)"
    by blast
  from ord0 have "o_items ord0 \<in> set (map o_items (planned_orders u addr gen 0 groups))"
    by simp
  then have "o_items ord0 \<in> set (map o_items new)" by (simp only: same)
  then obtain ord where ord: "ord \<in> set new" and items: "o_items ord = o_items ord0" by auto
  let ?oi = "order_item_of (fst g) ?gi"
  have oi: "?oi \<in> set (o_items ord)" using mem by (simp add: items items0)
  have "oi_productId ?oi = ci_productId it \<and> oi_quantity ?oi = ci_quantity it \<and>
      oi_price ?oi = (case corporatePrice ce of None \<Rightarrow> p_price p
                      | Some c \<Rightarrow> if c = 0 then p_price p else c)"
    using gi by (simp add: order_item_of_def unit_price_def split: option.splits)
  with ce p new ord oi show ?thesis by blast
qed

text \<open>The scenario: P is stored at its corporate price 100, Q at its base price 50.\<close>

theorem stored_unit_price_witness:
  "group_items (db_catalog shop) (db_products shop) cart [] = Inr cart_groups \<and>
   \<lparr>ci_productId = 0, ci_quantity = 5\<rparr> \<in> set cart \<and>
   (\<exists>ce p new.
      find_catalog_entry (db_catalog shop) 0 = Some ce \<and> db_products shop 0 = Some p \<and>
      db_orders placed = db_orders shop @ new \<and>
      (\<exists>ord\<in>set new. \<exists>oi\<in>set (o_items ord).
         oi_productId oi = 0 \<and> oi_quantity oi = 5 \<and>
         oi_price oi = (case corporatePrice ce of
                          None \<Rightarrow> p_price p
                        | Some c \<Rightarrow> if c = 0 then p_price p else c))) \<and>
   map (\<lambda>ord. map oi_price (o_items ord)) (db_orders placed) = [[100], [50]]"
proof -
  have it: "\<lparr>ci_productId = 0, ci_quantity = 5\<rparr> \<in> set cart" by (simp add: cart_def)
  have eval: "map (\<lambda>ord. map oi_price (o_items ord)) (db_orders placed) = [[100], [50]]"
    by (simp add: placed_def scenario_defs route_defs numbers_eval)
  from stored_unit_price[where st = shop and items = cart and groups = cart_groups
      and it = "\<lparr>ci_productId = 0, ci_quantity = 5\<rparr>" and gw = paying_gateway and gen = numbers
      and u = buyer and addr = depot, OF cart_valid it] cart_valid it eval
  show ?thesis by (simp add: placed_def)
qed

text \<open>
  The claim as stated fails when the corporate price is set to zero: the catalog entry of Q
  carries the override 0, and the order stores Q at its base price 50.
\<close>

theorem zero_override_counterexample:
  "find_catalog_entry (db_catalog zero_priced) 1 = Some (entryQ\<lparr>corporatePrice := Some 0\<rparr>) \<and>
   corporatePrice (entryQ\<lparr>corporatePrice := Some 0\<rparr>) = Some 0 \<and>
   map_option p_price (db_products zero_priced 1) = Some 50 \<and>
   fst (create_order paying_gateway numbers buyer cart (Some depot) zero_priced) \<noteq> Inl FailedToCreateOrder \<and>
   map (\<lambda>ord. map (\<lambda>oi. (oi_productId oi, oi_price oi)) (o_items ord))
     (db_orders (snd (create_order paying_gateway numbers buyer cart (Some depot) zero_priced))) =
     [[(0, 100)], [(1, 50)]] \<and>
   Some (50::int) \<noteq> corporatePrice (entryQ\<lparr>corporatePrice := Some 0\<rparr>)"
  by (simp add: zero_priced_def scenario_defs route_defs numbers_eval)

section \<open>Quantity bounds\<close>

lemma check_item_status:
  "check_item cat ps it = Inl e \<Longrightarrow> http_status e = 400"
  by (auto simp: check_item_def split: option.splits if_splits)

lemma check_item_quantity:
  "find_catalog_entry cat (ci_productId it) = Some ce \<Longrightarrow>
   ci_quantity it < minOrderQty ce \<or> maxOrderQty ce < ci_quantity it \<Longrightarrow>
   check_item cat ps it =
     Inl (if ci_quantity it < minOrderQty ce then MinimumOrderQuantity (minOrderQty ce)
          else MaximumOrderQuantity (maxOrderQty ce))"
  by (auto simp: check_item_def)

lemma group_items_first_failure:
  "\<forall>x\<in>set pre. \<exists>gi. check_item cat ps x = Inr gi \<Longrightarrow> check_item cat ps it = Inl e \<Longrightarrow>
     group_items cat ps (pre @ it # post) g = Inl e"
proof (induction pre arbitrary: g)
  case Nil
  then show ?case by simp
next
  case (Cons x pre)
  from Cons.prems(1) obtain gi where "check_item cat ps x = Inr gi" by auto
  with Cons show ?case by simp
qed

lemma group_items_some_failure:
  "it \<in> set items \<Longrightarrow> check_item cat ps it = Inl e \<Longrightarrow>
     \<exists>e'. group_items cat ps items g = Inl e' \<and> http_status e' = 400"
proof (induction items arbitrary: g)
  case Nil
  then show ?case by simp
next
  case (Cons x items)
  show ?case
  proof (cases "check_item cat ps x")
    case (Inl e')
    then show ?thesis by (simp add: check_item_status)
  next
    case (Inr gi)
    with Cons.prems have "it \<in> set items" by auto
    from Cons.IH[OF this Cons.prems(2)] Inr show ?thesis by simp
  qed
qed

text \<open>
  Claim C5, as amended.  A request that contains an item with an active catalog entry and a
  quantity below the entry's minimum or above its maximum fails with a status-400 error and
  leaves the state as it was: no order, no gateway request, no stock change.  When the
  request has a shipping address and every earlier item passes all its checks, the error is
  the quantity error that names the bound: the minimum when the quantity is below it,
  otherwise the maximum.
\<close>

theorem quantity_out_of_range_rejected:
  assumes entry: "find_catalog_entry (db_catalog st) (ci_productId it) = Some ce"
    and range: "ci_quantity it < minOrderQty ce \<or> maxOrderQty ce < ci_quantity it"
  shows "(\<exists>e. create_order gw gen u (pre @ it # post) shippingAddr st = (Inl e, st) \<and>
              http_status e = 400) \<and>
         (shippingAddr \<noteq> None \<and>
          (\<forall>x\<in>set pre. \<exists>gi. check_item (db_catalog st) (db_products st) x = Inr gi) \<longrightarrow>
            create_order gw gen u (pre @ it # post) shippingAddr st =
              (Inl (if ci_quantity it < minOrderQty ce then MinimumOrderQuantity (minOrderQty ce)
                    else MaximumOrderQuantity (maxOrderQty ce)), st))"
proof (intro conjI impI)
  let ?cat = "db_catalog st" and ?ps = "db_products st"
  let ?e = "if ci_quantity it < minOrderQty ce then MinimumOrderQuantity (minOrderQty ce)
            else MaximumOrderQuantity (maxOrderQty ce)"
  have bad: "check_item ?cat ?ps it = Inl ?e"
    using entry range by (rule check_item_quantity)
  show "\<exists>e. create_order gw gen u (pre @ it # post) shippingAddr st = (Inl e, st) \<and>
              http_status e = 400"
  proof (cases shippingAddr)
    case None
    then show ?thesis by (simp add: create_order_def)
  next
    case (Some addr)
    have "it \<in> set (pre @ it # post)" by simp
    from group_items_some_failure[OF this bad, of "[]"] obtain e' where
      "group_items ?cat ?ps (pre @ it # post) [] = Inl e'" "http_status e' = 400" by blast
    with Some show ?thesis by (simp add: create_order_def)
  qed
  assume "shippingAddr \<noteq> None \<and>
          (\<forall>x\<in>set pre. \<exists>gi. check_item (db_catalog st) (db_products st) x = Inr gi)"
  then obtain addr where addr: "shippingAddr = Some addr"
    and pre: "\<forall>x\<in>set pre. \<exists>gi. check_item ?cat ?ps x = Inr gi" by auto
  from group_items_first_failure[OF pre bad, of post "[]"]
  show "create_order gw gen u (pre @ it # post) shippingAddr st = (Inl ?e, st)"
    by (simp add: create_order_def addr)
qed

text \<open>The scenario with 500 units of Q, whose maximum is 100.\<close>

theorem quantity_out_of_range_rejected_witness:
  "find_catalog_entry (db_catalog shop) (ci_productId \<lparr>ci_productId = 1, ci_quantity = 500\<rparr>) = Some entryQ \<and>
   maxOrderQty entryQ < ci_quantity \<lparr>ci_productId = 1, ci_quantity = 500\<rparr> \<and>
   (\<exists>gi. check_item (db_catalog shop) (db_products shop) \<lparr>ci_productId = 0, ci_quantity = 5\<rparr> = Inr gi) \<and>
   create_order paying_gateway numbers buyer
     [\<lparr>ci_productId = 0, ci_quantity = 5\<rparr>, \<lparr>ci_productId = 1, ci_quantity = 500\<rparr>] (Some depot) shop =
     (Inl (MaximumOrderQuantity 100), shop)"
proof -
  let ?it = "\<lparr>ci_productId = 1, ci_quantity = 500\<rparr>"
  have entry: "find_catalog_entry (db_catalog shop) (ci_productId ?it) = Some entryQ"
    by (simp add: scenario_defs find_catalog_entry_def)
  have high: "maxOrderQty entryQ < ci_quantity ?it" by (simp add: entryQ_def)
  then have range: "ci_quantity ?it < minOrderQty entryQ \<or> maxOrderQty entryQ < ci_quantity ?it"
    by simp
  have first: "\<exists>gi. check_item (db_catalog shop) (db_products shop) \<lparr>ci_productId = 0, ci_quantity = 5\<rparr> = Inr gi"
    by (simp add: scenario_defs check_item_def find_catalog_entry_def)
  from quantity_out_of_range_rejected[where st = shop and it = ?it and ce = entryQ
       and pre = "[\<lparr>ci_productId = 0, ci_quantity = 5\<rparr>]" and post = "[]"
       and shippingAddr = "Some depot" and gw = paying_gateway and gen = numbers and u = buyer,
       OF entry range] first entry high
  show ?thesis by (simp add: entryQ_def)
qed

text \<open>
  The claim as stated fails when an earlier item fails another check: product 9 is not in
  the catalog, and the request is answered with that error, not with the quantity error of
  the second item.
\<close>

theorem earlier_failure_counterexample:
  "ci_quantity \<lparr>ci_productId = 1, ci_quantity = 500\<rparr> > maxOrderQty entryQ \<and>
   find_catalog_entry (db_catalog shop) 1 = Some entryQ \<and>
   create_order paying_gateway numbers buyer
     [\<lparr>ci_productId = 9, ci_quantity = 5\<rparr>, \<lparr>ci_productId = 1, ci_quantity = 500\<rparr>] (Some depot) shop =
     (Inl (NotInCatalog 9), shop) \<and>
   NotInCatalog 9 \<noteq> MaximumOrderQuantity (maxOrderQty entryQ) \<and>
   NotInCatalog 9 \<noteq> MinimumOrderQuantity (minOrderQty entryQ)"
  by (simp add: scenario_defs create_order_def check_item_def find_catalog_entry_def)

section \<open>Cancellation and refund\<close>

text \<open>
  Claim C6.  Cancelling an order of the buyer that is pending or confirmed and paid succeeds,
  leaves the order cancelled, and sends one refund request.  When the refund call returns,
  the order's payment status is refunded and the refund identifier is stored on it; when
  the call throws, the payment status is refund_pending, not refunded, and no refund
  identifier is stored.
\<close>

theorem refund_outcome_on_cancel:
  assumes found: "find_order i (u_email corpUser) (db_orders st) = Some ord"
    and cancellable: "status ord = ''pending'' \<or> status ord = ''confirmed''"
    and paid: "paymentStatus ord = ''paid''"
  shows "\<exists>ord' st'.
      cancel_order gw now corpUser i reason st = (Inr ord', st') \<and>
      find_order i (u_email corpUser) (db_orders st') = Some ord' \<and>
      status ord' = ''cancelled'' \<and>
      cf_refunds st' = cf_refunds st @ [refund_request_for now ord] \<and>
      (if createRefund gw (refund_request_for now ord)
       then paymentStatus ord' = ''refunded'' \<and>
            refundId ord' = Some (rr_refundId (refund_request_for now ord))
       else paymentStatus ord' = ''refund_pending'' \<and> paymentStatus ord' \<noteq> ''refunded'' \<and>
            refundId ord' = refundId ord)"
proof -
  from found have i: "i < length (db_orders st)" and ord: "db_orders st ! i = ord"
    and email: "customerEmail ord = u_email corpUser"
    by (auto simp: find_order_def split: if_splits)
  show ?thesis
    using found cancellable paid i email
    by (auto simp: cancel_order_def Let_def save_order_def find_order_def refund_request_for_def)
qed

text \<open>The first order of the scenario, cancelled with a gateway that refunds and one that fails.\<close>

theorem refund_outcome_on_cancel_witness:
  "find_order 0 (u_email buyer) (db_orders paid) = Some (db_orders paid ! 0) \<and>
   status (db_orders paid ! 0) = ''confirmed'' \<and> paymentStatus (db_orders paid ! 0) = ''paid'' \<and>
   createRefund paying_gateway (refund_request_for 2000 (db_orders paid ! 0)) \<and>
   \<not> createRefund failing_gateway (refund_request_for 2000 (db_orders paid ! 0)) \<and>
   (\<exists>ord' st'. cancel_order paying_gateway 2000 buyer 0 None paid = (Inr ord', st') \<and>
      status ord' = ''cancelled'' \<and> paymentStatus ord' = ''refunded'' \<and>
      refundId ord' = Some (rr_refundId (refund_request_for 2000 (db_orders paid ! 0)))) \<and>
   (\<exists>ord' st'. cancel_order failing_gateway 2000 buyer 0 None paid = (Inr ord', st') \<and>
      status ord' = ''cancelled'' \<and> paymentStatus ord' = ''refund_pending'')"
proof -
  have facts: "find_order 0 (u_email buyer) (db_orders paid) = Some (db_orders paid ! 0) \<and>
      status (db_orders paid ! 0) = ''confirmed'' \<and> paymentStatus (db_orders paid ! 0) = ''paid''"
    by (simp add: paid_def placed_def scenario_defs route_defs numbers_eval
        decimal.simps digit_char_def)
  then have found: "find_order 0 (u_email buyer) (db_orders paid) = Some (db_orders paid ! 0)"
    and cancellable: "status (db_orders paid ! 0) = ''pending'' \<or> status (db_orders paid ! 0) = ''confirmed''"
    and is_paid: "paymentStatus (db_orders paid ! 0) = ''paid''"
    by simp_all
  have ok: "createRefund paying_gateway (refund_request_for 2000 (db_orders paid ! 0))"
    and ko: "\<not> createRefund failing_gateway (refund_request_for 2000 (db_orders paid ! 0))"
    by (simp_all add: paying_gateway_def failing_gateway_def)
  from refund_outcome_on_cancel[OF found cancellable is_paid, of paying_gateway 2000 None]
       refund_outcome_on_cancel[OF found cancellable is_paid, of failing_gateway 2000 None]
       facts ok ko
  show ?thesis by (simp only: if_True if_False) blast
qed

section \<open>Verifying a payment twice\<close>

lemma find_orders_member:
  "(i, ord) \<in> set (find_orders cf email os) \<longleftrightarrow>
     i < length os \<and> os ! i = ord \<and> cashfreeOrderId ord = Some cf \<and> customerEmail ord = email"
  by (auto simp: find_orders_def in_set_enumerate_eq)

lemma enumerate_nth: "List.enumerate 0 os = map (\<lambda>i. (i, os ! i)) [0..<length os]"
  by (rule nth_equalityI) (simp_all add: nth_enumerate_eq)

lemma find_orders_ids:
  "map fst (find_orders cf email os) =
     filter (\<lambda>i. cashfreeOrderId (os ! i) = Some cf \<and> customerEmail (os ! i) = email) [0..<length os]"
  by (simp add: find_orders_def enumerate_nth filter_map comp_def)

lemma confirm_orders_ids: "map fst (fst (confirm_orders pay now found st)) = map fst found"
proof (induction found arbitrary: st)
  case Nil
  show ?case by simp
next
  case (Cons x rest)
  obtain i ord where x: "x = (i, ord)" by (cases x)
  show ?case using Cons.IH by (simp add: x split_beta Let_def)
qed

lemma confirm_orders_all_paid:
  "\<forall>io\<in>set (fst (confirm_orders pay now found st)). paymentStatus (snd io) = ''paid''"
proof (induction found arbitrary: st)
  case Nil
  show ?case by simp
next
  case (Cons x rest)
  obtain i ord where x: "x = (i, ord)" by (cases x)
  show ?case using Cons.IH by (simp add: x split_beta Let_def mark_paid_def)
qed

lemma confirm_orders_skip:
  "\<forall>io\<in>set found. paymentStatus (snd io) = ''paid'' \<Longrightarrow> confirm_orders pay now found st = (found, st)"
proof (induction found)
  case Nil
  show ?case by simp
next
  case (Cons x rest)
  obtain i ord where x: "x = (i, ord)" by (cases x)
  from Cons show ?case by (simp add: x)
qed

text \<open>The orders after the loop, position by position.\<close>

lemma confirm_orders_length:
  "length (db_orders (snd (confirm_orders pay now found st))) = length (db_orders st)"
proof (induction found arbitrary: st)
  case Nil
  show ?case by simp
next
  case (Cons x rest)
  obtain i ord where x: "x = (i, ord)" by (cases x)
  show ?case using Cons.IH by (simp add: x split_beta Let_def save_order_def)
qed

lemma same_keys_trans: "same_keys a b \<Longrightarrow> same_keys b c \<Longrightarrow> same_keys a c"
  by (simp add: same_keys_def)

lemma confirm_orders_store:
  assumes "\<forall>io\<in>set found. fst io < length (db_orders st) \<and> same_keys (snd io) (db_orders st ! fst io) \<and>
             (paymentStatus (snd io) = ''paid'' \<longrightarrow> paymentStatus (db_orders st ! fst io) = ''paid'')"
    and "j < length (db_orders st)"
  shows "same_keys (db_orders (snd (confirm_orders pay now found st)) ! j) (db_orders st ! j) \<and>
         (paymentStatus (db_orders st ! j) = ''paid'' \<or> j \<in> fst ` set found \<longrightarrow>
            paymentStatus (db_orders (snd (confirm_orders pay now found st)) ! j) = ''paid'')"
  using assms
proof (induction found arbitrary: st)
  case Nil
  then show ?case by (simp add: same_keys_def)
next
  case (Cons x rest)
  obtain i ord where x: "x = (i, ord)" by (cases x)
  from Cons.prems(1) have i: "i < length (db_orders st)" and keys: "same_keys ord (db_orders st ! i)"
    and snap: "paymentStatus ord = ''paid'' \<longrightarrow> paymentStatus (db_orders st ! i) = ''paid''"
    and rest: "\<forall>io\<in>set rest. fst io < length (db_orders st) \<and> same_keys (snd io) (db_orders st ! fst io) \<and>
             (paymentStatus (snd io) = ''paid'' \<longrightarrow> paymentStatus (db_orders st ! fst io) = ''paid'')"
    by (simp_all add: x)
  show ?case
  proof (cases "paymentStatus ord = ''paid''")
    case True
    have skip: "snd (confirm_orders pay now (x # rest) st) = snd (confirm_orders pay now rest st)"
      using True by (simp add: x split_beta)
    from snap True have "paymentStatus (db_orders st ! i) = ''paid''" by simp
    with Cons.IH[OF rest Cons.prems(2)] show ?thesis
      unfolding skip by (auto simp: x)
  next
    case False
    define ord' where "ord' = mark_paid pay now ord"
    define st2 where "st2 = (save_order i ord' st)\<lparr>db_products :=
        decrement_items (o_items ord') (db_products (save_order i ord' st))\<rparr>"
    have orders2: "db_orders st2 = (db_orders st)[i := ord']" by (simp add: st2_def save_order_def)
    have keys': "same_keys ord' ord" by (simp add: same_keys_def ord'_def mark_paid_def)
    have paid': "paymentStatus ord' = ''paid''" by (simp add: ord'_def mark_paid_def)
    have at: "same_keys (db_orders st2 ! k) (db_orders st ! k) \<and>
        (paymentStatus (db_orders st ! k) = ''paid'' \<or> k = i \<longrightarrow> paymentStatus (db_orders st2 ! k) = ''paid'')"
      if "k < length (db_orders st)" for k
    proof (cases "k = i")
      case True
      with i keys keys' paid' show ?thesis by (simp add: orders2 same_keys_trans)
    next
      case False
      with that show ?thesis by (simp add: orders2 same_keys_def)
    qed
    have rest2: "\<forall>io\<in>set rest. fst io < length (db_orders st2) \<and>
        same_keys (snd io) (db_orders st2 ! fst io) \<and>
        (paymentStatus (snd io) = ''paid'' \<longrightarrow> paymentStatus (db_orders st2 ! fst io) = ''paid'')"
    proof
      fix io assume io: "io \<in> set rest"
      with rest have a: "fst io < length (db_orders st)"
        and b: "same_keys (snd io) (db_orders st ! fst io)"
        and c: "paymentStatus (snd io) = ''paid'' \<longrightarrow> paymentStatus (db_orders st ! fst io) = ''paid''"
        by auto
      from at[OF a] have d: "same_keys (db_orders st2 ! fst io) (db_orders st ! fst io)"
        and e: "paymentStatus (db_orders st ! fst io) = ''paid'' \<longrightarrow> paymentStatus (db_orders st2 ! fst io) = ''paid''"
        by simp_all
      from b d have "same_keys (snd io) (db_orders st2 ! fst io)" by (simp add: same_keys_def)
      with a c e show "fst io < length (db_orders st2) \<and>
        same_keys (snd io) (db_orders st2 ! fst io) \<and>
        (paymentStatus (snd io) = ''paid'' \<longrightarrow> paymentStatus (db_orders st2 ! fst io) = ''paid'')"
        by (simp add: orders2)
    qed
    have j2: "j < length (db_orders st2)" using Cons.prems(2) by (simp add: orders2)
    have step: "snd (confirm_orders pay now (x # rest) st) = snd (confirm_orders pay now rest st2)"
      using False by (simp add: x Let_def split_beta st2_def ord'_def)
    from Cons.IH[OF rest2 j2]
    have ih1: "same_keys (db_orders (snd (confirm_orders pay now rest st2)) ! j) (db_orders st2 ! j)"
      and ih2: "paymentStatus (db_orders st2 ! j) = ''paid'' \<or> j \<in> fst ` set rest \<longrightarrow>
          paymentStatus (db_orders (snd (confirm_orders pay now rest st2)) ! j) = ''paid''"
      by simp_all
    from at[OF Cons.prems(2)]
    have at1: "same_keys (db_orders st2 ! j) (db_orders st ! j)"
      and at2: "paymentStatus (db_orders st ! j) = ''paid'' \<or> j = i \<longrightarrow> paymentStatus (db_orders st2 ! j) = ''paid''"
      by simp_all
    have "same_keys (db_orders (snd (confirm_orders pay now rest st2)) ! j) (db_orders st ! j)"
      using ih1 at1 by (rule same_keys_trans)
    moreover have "paymentStatus (db_orders st ! j) = ''paid'' \<or> j \<in> fst ` set (x # rest) \<longrightarrow>
          paymentStatus (db_orders (snd (confirm_orders pay now rest st2)) ! j) = ''paid''"
      using ih2 at2 by (auto simp: x)
    ultimately show ?thesis unfolding step by simp
  qed
qed

lemma found_consistent:
  "\<forall>io\<in>set (find_orders cf email os). fst io < length os \<and> same_keys (snd io) (os ! fst io) \<and>
     (paymentStatus (snd io) = ''paid'' \<longrightarrow> paymentStatus (os ! fst io) = ''paid'')"
proof
  fix io assume "io \<in> set (find_orders cf email os)"
  then have "(fst io, snd io) \<in> set (find_orders cf email os)" by simp
  then have "fst io < length os \<and> os ! fst io = snd io" by (simp only: find_orders_member)
  then show "fst io < length os \<and> same_keys (snd io) (os ! fst io) \<and>
     (paymentStatus (snd io) = ''paid'' \<longrightarrow> paymentStatus (os ! fst io) = ''paid'')"
    by (simp add: same_keys_def)
qed

lemma verify_payment_Inr:
  assumes "verify_payment gw now u orderId st = (Inr os, st1)"
  shows "\<exists>cf pay. orderId = Some cf \<and> find_orders cf (u_email u) (db_orders st) \<noteq> [] \<and>
           confirm_orders pay now (find_orders cf (u_email u) (db_orders st)) st = (os, st1)"
  using assms
  by (cases orderId)
     (auto simp: verify_payment_def Let_def split: option.splits if_splits prod.splits)

lemma second_run_skips:
  assumes run: "confirm_orders pay now (find_orders cf email (db_orders st)) st = (os, st1)"
  shows "map fst (find_orders cf email (db_orders st1)) = map fst os"
    and "\<forall>io\<in>set (find_orders cf email (db_orders st1)). paymentStatus (snd io) = ''paid''"
proof -
  let ?found = "find_orders cf email (db_orders st)"
  let ?found2 = "find_orders cf email (db_orders st1)"
  from run have st1: "st1 = snd (confirm_orders pay now ?found st)"
    and os: "os = fst (confirm_orders pay now ?found st)" by simp_all
  have len: "length (db_orders st1) = length (db_orders st)"
    unfolding st1 by (rule confirm_orders_length)
  have store: "same_keys (db_orders st1 ! j) (db_orders st ! j) \<and>
         (paymentStatus (db_orders st ! j) = ''paid'' \<or> j \<in> fst ` set ?found \<longrightarrow>
            paymentStatus (db_orders st1 ! j) = ''paid'')" if "j < length (db_orders st)" for j
    unfolding st1 using found_consistent that by (rule confirm_orders_store)
  have "filter (\<lambda>i. cashfreeOrderId (db_orders st1 ! i) = Some cf \<and> customerEmail (db_orders st1 ! i) = email)
          [0..<length (db_orders st)] =
        filter (\<lambda>i. cashfreeOrderId (db_orders st ! i) = Some cf \<and> customerEmail (db_orders st ! i) = email)
          [0..<length (db_orders st)]"
    using store by (intro filter_cong refl) (simp add: same_keys_def)
  then have ids: "map fst ?found2 = map fst ?found"
    by (simp add: find_orders_ids len)
  then show "map fst ?found2 = map fst os"
    by (simp add: os confirm_orders_ids)
  show "\<forall>io\<in>set ?found2. paymentStatus (snd io) = ''paid''"
  proof
    fix io assume io: "io \<in> set ?found2"
    then have "(fst io, snd io) \<in> set ?found2" by simp
    then have j: "fst io < length (db_orders st1)" and at: "db_orders st1 ! fst io = snd io"
      by (simp_all only: find_orders_member)
    from io have "fst io \<in> set (map fst ?found2)" by simp
    then have "fst io \<in> fst ` set ?found" by (simp only: ids) simp
    with store[of "fst io"] j len have "paymentStatus (db_orders st1 ! fst io) = ''paid''" by simp
    then show "paymentStatus (snd io) = ''paid''" by (simp add: at)
  qed
qed

text \<open>
  Claim C2.  After a verification that succeeded, a second verification for the same buyer
  and gateway order id leaves the whole state as it is, whatever the gateway answers and
  whenever it runs: no stock changes and no order changes, so every matching order keeps its
  status, payment status, payment reference and paid timestamp.  When the gateway still
  reports the order as paid, the second verification succeeds too, answers with the same
  orders, and every one of them is paid (so the loop skipped each).
\<close>

theorem verify_payment_idempotent:
  assumes first: "verify_payment gw now u orderId st = (Inr os, st1)"
  shows "snd (verify_payment gw' now' u orderId st1) = st1 \<and>
         (\<forall>cf. orderId = Some cf \<and> getCashfreeOrder gw' cf = Some ''PAID'' \<and>
               getCashfreePayments gw' cf \<noteq> None \<longrightarrow>
            (\<exists>os'. verify_payment gw' now' u orderId st1 = (Inr os', st1) \<and>
                   map fst os' = map fst os \<and>
                   (\<forall>io\<in>set os'. paymentStatus (snd io) = ''paid'')))"
proof -
  from verify_payment_Inr[OF first] obtain cf pay where
    orderId: "orderId = Some cf" and
    nonempty: "find_orders cf (u_email u) (db_orders st) \<noteq> []" and
    run: "confirm_orders pay now (find_orders cf (u_email u) (db_orders st)) st = (os, st1)"
    by blast
  let ?found2 = "find_orders cf (u_email u) (db_orders st1)"
  note ids = second_run_skips(1)[OF run] and paid = second_run_skips(2)[OF run]
  have skip: "confirm_orders pay' now' ?found2 st1 = (?found2, st1)" for pay'
    using paid by (rule confirm_orders_skip)
  have unchanged: "snd (verify_payment gw' now' u orderId st1) = st1"
    by (simp add: verify_payment_def orderId Let_def skip split: option.splits)
  have again: "\<exists>os'. verify_payment gw' now' u orderId st1 = (Inr os', st1) \<and>
                   map fst os' = map fst os \<and>
                   (\<forall>io\<in>set os'. paymentStatus (snd io) = ''paid'')"
    if gw': "getCashfreeOrder gw' cf = Some ''PAID''" "getCashfreePayments gw' cf \<noteq> None"
  proof -
    from first have cf: "cf \<noteq> []"
      by (auto simp: verify_payment_def orderId)
    from run have "map fst os = map fst (find_orders cf (u_email u) (db_orders st))"
      using confirm_orders_ids[of pay now "find_orders cf (u_email u) (db_orders st)" st] by simp
    with nonempty ids have ne2: "?found2 \<noteq> []" by auto
    from gw' obtain payments where "getCashfreePayments gw' cf = Some payments" by auto
    with gw' cf ne2 have "verify_payment gw' now' u orderId st1 = (Inr ?found2, st1)"
      by (simp add: verify_payment_def orderId Let_def skip)
    with ids paid show ?thesis by blast
  qed
  from unchanged again orderId show ?thesis by blast
qed

text \<open>The scenario: a second verification of the paid orders changes nothing.\<close>

theorem verify_payment_idempotent_witness:
  "fst (verify_payment paying_gateway 1000 buyer (Some (numbers 0)) placed) \<noteq> Inl VerificationFailed \<and>
   getCashfreeOrder paying_gateway (numbers 0) = Some ''PAID'' \<and>
   getCashfreePayments paying_gateway (numbers 0) \<noteq> None \<and>
   snd (verify_payment paying_gateway 5000 buyer (Some (numbers 0)) paid) = paid \<and>
   snd (verify_payment failing_gateway 5000 buyer (Some (numbers 0)) paid) = paid \<and>
   (\<exists>os'. verify_payment paying_gateway 5000 buyer (Some (numbers 0)) paid = (Inr os', paid) \<and>
          map fst os' = [0, 1]) \<and>
   map_option p_stock (db_products paid 0) = Some 15"
proof -
  obtain os where first: "verify_payment paying_gateway 1000 buyer (Some (numbers 0)) placed = (Inr os, paid)"
    and ids: "map fst os = [0, 1]"
    by (simp add: paid_def placed_def scenario_defs route_defs numbers_eval
        decimal.simps digit_char_def)
  have gw: "getCashfreeOrder paying_gateway (numbers 0) = Some ''PAID''"
      "getCashfreePayments paying_gateway (numbers 0) \<noteq> None"
    by (simp_all add: paying_gateway_def)
  have stock: "map_option p_stock (db_products paid 0) = Some 15"
    by (simp add: paid_def placed_def scenario_defs route_defs numbers_eval
        decimal.simps digit_char_def)
  from verify_payment_idempotent[OF first, of paying_gateway 5000]
       verify_payment_idempotent[OF first, of failing_gateway 5000]
       first gw ids stock
  show ?thesis by auto
qed

section \<open>Cancelling after verification\<close>
























section \<open>Expired quotes\<close>

lemma approve_expired:
  "expired_quote qid st \<Longrightarrow> approve_quote gw number now u qid addr st = (Inl QuoteNotFound, st)"
  by (auto simp: expired_quote_def approve_quote_def find_sent_quote_def split: option.splits)

lemma approve_keeps_expired:
  "expired_quote qid st \<Longrightarrow> expired_quote qid (snd (approve_quote gw number now u qid' addr st))"
proof (cases "qid' = qid")
  case True
  assume "expired_quote qid st"
  then show ?thesis by (simp add: True approve_expired)
next
  case False
  assume "expired_quote qid st"
  with False show ?thesis
    by (simp add: expired_quote_def approve_quote_def Let_def save_order_def
        split: option.splits)
qed

lemma reject_keeps_expired:
  "expired_quote qid st \<Longrightarrow> expired_quote qid (snd (reject_quote u qid' reason st))"
  by (auto simp: expired_quote_def reject_quote_def find_sent_quote_def Let_def
      split: option.splits)

lemma backfill_session_quotes:
  "db_quotes (snd (backfill_session cf sess os st)) = db_quotes st"
proof (induction os arbitrary: st)
  case Nil
  show ?case by simp
next
  case (Cons x os)
  obtain i ord where x: "x = (i, ord)" by (cases x)
  show ?case by (simp add: x split_beta Cons.IH save_order_def)
qed

lemma create_order_quotes:
  "db_quotes (snd (create_order gw gen u items addr st)) = db_quotes st"
  by (simp add: create_order_def save_new_orders_eq Let_def split_beta backfill_session_quotes
      save_order_def split: option.splits sum.splits list.splits)

lemma confirm_orders_quotes:
  "db_quotes (snd (confirm_orders pay now found st)) = db_quotes st"
proof (induction found arbitrary: st)
  case Nil
  show ?case by simp
next
  case (Cons x rest)
  obtain i ord where x: "x = (i, ord)" by (cases x)
  show ?case by (simp add: x split_beta Let_def Cons.IH save_order_def)
qed

lemma verify_payment_quotes:
  "db_quotes (snd (verify_payment gw now u orderId st)) = db_quotes st"
  using verify_payment_effect[of gw now u orderId st]
  by (auto simp: confirm_orders_quotes)

lemma cancel_order_quotes:
  "db_quotes (snd (cancel_order gw now u i reason st)) = db_quotes st"
  by (simp add: cancel_order_def Let_def save_order_def split: option.splits)

lemma handle_keeps_expired:
  "expired_quote qid st \<Longrightarrow> expired_quote qid (snd (handle r st))"
proof (cases r)
  case (CreateOrder gw gen u items addr)
  assume "expired_quote qid st"
  then show ?thesis
    using create_order_quotes[of gw gen u items addr st]
    by (simp add: CreateOrder split_beta expired_quote_def)
next
  case (VerifyPayment gw now u orderId)
  assume "expired_quote qid st"
  then show ?thesis
    using verify_payment_quotes[of gw now u orderId st]
    by (simp add: VerifyPayment split_beta expired_quote_def)
next
  case (CancelOrder gw now u i reason)
  assume "expired_quote qid st"
  then show ?thesis
    using cancel_order_quotes[of gw now u i reason st]
    by (simp add: CancelOrder split_beta expired_quote_def)
next
  case (ApproveQuote gw number now u qid' addr)
  assume "expired_quote qid st"
  then show ?thesis
    by (simp add: ApproveQuote split_beta approve_keeps_expired)
next
  case (RejectQuote u qid' reason)
  assume "expired_quote qid st"
  then show ?thesis
    by (simp add: RejectQuote split_beta reject_keeps_expired)
qed

lemma serve_expired:
  "expired_quote qid st \<Longrightarrow> k < length reqs \<Longrightarrow>
   reqs ! k = ApproveQuote gw number now u qid addr \<Longrightarrow>
     fst (serve reqs st) ! k = QuoteApproved (Inl QuoteNotFound)"
proof (induction reqs arbitrary: st k)
  case Nil
  then show ?case by simp
next
  case (Cons r rs)
  show ?case
  proof (cases k)
    case 0
    with Cons.prems show ?thesis by (simp add: split_beta approve_expired)
  next
    case (Suc k')
    from Cons.prems(1) have "expired_quote qid (snd (handle r st))" by (rule handle_keeps_expired)
    from Cons.IH[OF this, of k'] Cons.prems Suc show ?thesis by (simp add: split_beta)
  qed
qed

text \<open>
  Claim C7.  An approval request for a quote of the requester that is in status sent and
  whose validity deadline has passed fails with the expiry error (status 400), and its one
  effect on the state is that the quote is saved as expired.  From then on, in any sequence
  of requests to the routes of this server, by any user and with any gateway behaviour,
  every approval request for that quote is answered with "not found": none succeeds.
\<close>

theorem expired_quote_cannot_be_approved:
  assumes q: "db_quotes st qid = Some q"
    and sent: "q_status q = ''sent''"
    and owner: "corporateUserId q = Some (u_id u) \<or> contactEmail q = u_email u"
    and deadline: "validUntil q = Some deadline" "deadline < now"
  shows "approve_quote gw number now u qid addr st =
           (Inl QuoteExpired, st\<lparr>db_quotes := (db_quotes st)(qid \<mapsto> q\<lparr>q_status := ''expired''\<rparr>)\<rparr>) \<and>
         http_status QuoteExpired = 400 \<and>
         (\<forall>reqs k gw' number' now' u' addr'.
            k < length reqs \<and> reqs ! k = ApproveQuote gw' number' now' u' qid addr' \<longrightarrow>
            fst (serve reqs (snd (approve_quote gw number now u qid addr st))) ! k =
              QuoteApproved (Inl QuoteNotFound))"
proof -
  let ?st' = "st\<lparr>db_quotes := (db_quotes st)(qid \<mapsto> q\<lparr>q_status := ''expired''\<rparr>)\<rparr>"
  have run: "approve_quote gw number now u qid addr st = (Inl QuoteExpired, ?st')"
    using assms by (auto simp: approve_quote_def find_sent_quote_def is_expired_def)
  have "expired_quote qid ?st'" by (simp add: expired_quote_def)
  then have "fst (serve reqs ?st') ! k = QuoteApproved (Inl QuoteNotFound)"
    if "k < length reqs" "reqs ! k = ApproveQuote gw' number' now' u' qid addr'"
    for reqs k gw' number' now' u' addr'
    using that by (rule serve_expired)
  with run show ?thesis by simp
qed

text \<open>
  The quote of the scenario, approved at time 1000: it expires, and an approval that
  follows a rejection attempt is not found.
\<close>

theorem expired_quote_cannot_be_approved_witness:
  "db_quotes quoted 0 = Some offer \<and> q_status offer = ''sent'' \<and>
   corporateUserId offer = Some (u_id buyer) \<and> validUntil offer = Some 500 \<and> (500::nat) < 1000 \<and>
   fst (approve_quote paying_gateway ''GFT-B2B-20260101-0007'' 1000 buyer 0 (Some depot) quoted) = Inl QuoteExpired \<and>
   map_option q_status
     (db_quotes (snd (approve_quote paying_gateway ''GFT-B2B-20260101-0007'' 1000 buyer 0 (Some depot) quoted)) 0)
     = Some ''expired'' \<and>
   fst (serve [RejectQuote buyer 0 None,
               ApproveQuote paying_gateway ''GFT-B2B-20260101-0008'' 400 buyer 0 (Some depot)]
          (snd (approve_quote paying_gateway ''GFT-B2B-20260101-0007'' 1000 buyer 0 (Some depot) quoted))) ! 1
     = QuoteApproved (Inl QuoteNotFound)"
proof -
  have q: "db_quotes quoted 0 = Some offer" by (simp add: quoted_def)
  have sent: "q_status offer = ''sent''" by (simp add: offer_def)
  have mine: "corporateUserId offer = Some (u_id buyer)" by (simp add: offer_def buyer_def)
  then have owner: "corporateUserId offer = Some (u_id buyer) \<or> contactEmail offer = u_email buyer"
    by simp
  have deadline: "validUntil offer = Some 500" "(500::nat) < 1000" by (simp_all add: offer_def)
  let ?reqs = "[RejectQuote buyer 0 None,
                ApproveQuote paying_gateway ''GFT-B2B-20260101-0008'' 400 buyer 0 (Some depot)]"
  note t = expired_quote_cannot_be_approved[OF q sent owner deadline,
      of paying_gateway "''GFT-B2B-20260101-0007''" "Some depot"]
  from t have run: "approve_quote paying_gateway ''GFT-B2B-20260101-0007'' 1000 buyer 0 (Some depot) quoted =
      (Inl QuoteExpired, quoted\<lparr>db_quotes := (db_quotes quoted)(0 \<mapsto> offer\<lparr>q_status := ''expired''\<rparr>)\<rparr>)"
    by blast
  from t have later: "1 < length ?reqs \<and>
      ?reqs ! 1 = ApproveQuote paying_gateway ''GFT-B2B-20260101-0008'' 400 buyer 0 (Some depot) \<longrightarrow>
      fst (serve ?reqs (snd (approve_quote paying_gateway ''GFT-B2B-20260101-0007'' 1000 buyer 0 (Some depot) quoted))) ! 1 =
        QuoteApproved (Inl QuoteNotFound)"
    by blast
  have "1 < length ?reqs \<and>
      ?reqs ! 1 = ApproveQuote paying_gateway ''GFT-B2B-20260101-0008'' 400 buyer 0 (Some depot)"
    by simp
  with later have never: "fst (serve ?reqs (snd (approve_quote paying_gateway ''GFT-B2B-20260101-0007'' 1000 buyer 0 (Some depot) quoted))) ! 1 =
        QuoteApproved (Inl QuoteNotFound)"
    by blast
  from run have status: "map_option q_status
     (db_quotes (snd (approve_quote paying_gateway ''GFT-B2B-20260101-0007'' 1000 buyer 0 (Some depot) quoted)) 0)
     = Some ''expired''"
    by simp
  from run have failed: "fst (approve_quote paying_gateway ''GFT-B2B-20260101-0007'' 1000 buyer 0 (Some depot) quoted) = Inl QuoteExpired"
    by simp
  from q sent mine deadline failed status never show ?thesis by (intro conjI)
qed

end
